theory Spec2Isabelle
  imports Main
begin

section \<open>JavaScript values and failures\<close>

text \<open>
  The media-processing scripts are JavaScript. A thrown exception is a value of
  \<open>js_error\<close>; a method that mutates the manager and may throw half-way returns a
  \<open>completion\<close>, which carries the manager as the exception leaves it.
\<close>

datatype js_error = TypeError

datatype 'a completion = Normal 'a | Throw js_error 'a

fun is_Throw :: "'a completion \<Rightarrow> bool" where
  "is_Throw (Throw e s) = True"
| "is_Throw (Normal s) = False"

fun state_of :: "'a completion \<Rightarrow> 'a" where
  "state_of (Throw e s) = s"
| "state_of (Normal s) = s"

section \<open>The directory scan (media-manager.js, getFilesInFolder)\<close>

text \<open>
  Strings are byte strings (UTF-8); \<open>toLowerCase\<close> is modelled on ASCII letters. The
  regular expression \<^verbatim>\<open>'.(' + exts.join('|') + ')$'\<close> is modelled for extensions without
  regular expression metacharacters: some character other than a line terminator (line
  feed, carriage return, U+2028, U+2029), then one of the extensions, then the end of the
  name. An empty list of extensions joins to the empty alternative.
\<close>

definition toLowerCase_char :: "char \<Rightarrow> char" where
  "toLowerCase_char c =
     (if (65::nat) \<le> of_char c \<and> of_char c \<le> (90::nat) then char_of (of_char c + (32::nat)) else c)"

definition toLowerCase :: "string \<Rightarrow> string" where
  "toLowerCase s = map toLowerCase_char s"

definition ends_with_line_terminator :: "string \<Rightarrow> bool" where
  "ends_with_line_terminator pre =
     (pre \<noteq> [] \<and> (last pre = CHR 0x0A \<or> last pre = CHR 0x0D)
      \<or> 3 \<le> length pre \<and>
        (drop (length pre - 3) pre = [CHR 0xE2, CHR 0x80, CHR 0xA8]
         \<or> drop (length pre - 3) pre = [CHR 0xE2, CHR 0x80, CHR 0xA9]))"

definition re_test :: "string list \<Rightarrow> string \<Rightarrow> bool" where
  "re_test exts file =
     list_ex (\<lambda>ext. length ext < length file
                 \<and> drop (length file - length ext) file = ext
                 \<and> \<not> ends_with_line_terminator (take (length file - length ext) file))
       (if exts = [] then [[]] else exts)"

text \<open>
  Node's \<^verbatim>\<open>path.extname\<close> and \<^verbatim>\<open>path.basename\<close> (POSIX): the last segment of the path,
  trailing slashes ignored; the extension runs from the last dot of that segment, and is
  empty when there is no dot, when the only dot is the segment's first character, or when
  the segment is \<^verbatim>\<open>..\<close>. \<open>basename p ext\<close> is empty when the whole path is \<open>ext\<close>, and
  otherwise drops \<open>ext\<close> when it is a proper suffix of the segment.
\<close>

definition last_segment :: "string \<Rightarrow> string" where
  "last_segment p =
     rev (takeWhile (\<lambda>c. c \<noteq> CHR ''/'') (dropWhile (\<lambda>c. c = CHR ''/'') (rev p)))"

definition extname :: "string \<Rightarrow> string" where
  "extname p =
     (let b = last_segment p;
          r = takeWhile (\<lambda>c. c \<noteq> CHR ''.'') (rev b)
      in if length r = length b \<or> Suc (length r) = length b \<or> b = ''..'' then []
         else CHR ''.'' # rev r)"

definition basename :: "string \<Rightarrow> string \<Rightarrow> string" where
  "basename p ext =
     (let b = last_segment p
      in if ext \<noteq> [] \<and> p = ext then []
         else if ext \<noteq> [] \<and> length ext < length b \<and> drop (length b - length ext) b = ext
         then take (length b - length ext) b else b)"

record public_record =
  slug :: string
  extension :: string

record private_paths =
  srcFolderPath :: string
  srcFileName :: string
  srcFilePath :: string

record file_meta =
  filePublicData :: public_record
  filePrivateData :: private_paths

text \<open>
  \<open>slugify\<close> is the \<^verbatim>\<open>slug\<close> package called with \<^verbatim>\<open>{lower: true}\<close>, and \<open>readdir\<close> is
  what \<^verbatim>\<open>fs.readdirSync(folderPath)\<close> returns: both are parameters. The filter tests the
  lower-cased name and keeps the name as it is.
\<close>

definition getFilesInFolder ::
  "(string \<Rightarrow> string) \<Rightarrow> string list \<Rightarrow> string \<Rightarrow> string list \<Rightarrow> file_meta list" where
  "getFilesInFolder slugify readdir folderPath fileExtensions =
     map (\<lambda>fileName.
            let filePath = folderPath @ fileName
            in \<lparr>filePublicData =
                   \<lparr>slug = slugify (basename filePath (extname filePath)),
                    extension = remove1 (CHR ''.'') (extname filePath)\<rparr>,
                 filePrivateData =
                   \<lparr>srcFolderPath = folderPath, srcFileName = fileName,
                    srcFilePath = filePath\<rparr>\<rparr>)
         (filter (\<lambda>file. re_test (map toLowerCase fileExtensions) (toLowerCase file)) readdir)"

section \<open>The manager (media-manager.js, class MediaManager)\<close>

text \<open>
  A command is a shell command line or a JavaScript function. Of a function the manager
  reads its \<^verbatim>\<open>name\<close> and its source text (\<^verbatim>\<open>toString()\<close>); the third field says whether
  the function invokes the continuation it is handed before it returns.
\<close>

datatype cmd = CmdString string | CmdFunction string string bool

record private_record = private_paths +
  private_slug :: string
  srcFileHash :: string

text \<open>
  A needed task. The fields \<^verbatim>\<open>onComplete\<close> and \<^verbatim>\<open>onTimeout\<close> are closures of the
  caller; the model records their invocations and not their bodies.
\<close>

record task =
  task_cmd :: cmd
  task_slug :: string
  task_media :: "public_record option"

text \<open>
  The ledger \<^verbatim>\<open>this.privateData\<close>: the object the manager itself writes with
  \<^verbatim>\<open>_writePrivateData\<close>, an object of objects of strings, keyed by slug and then by
  command signature. Keys found only on \<^verbatim>\<open>Object.prototype\<close> are outside the model.
\<close>

type_synonym ledger = "string \<Rightarrow> (string \<Rightarrow> string option) option"

record manager =
  forceTask :: bool
  numberOfConcurrentTask :: nat
  publicDataPath :: "string option"
  privateDataPath :: "string option"
  privateData :: ledger
  sourcePublicData :: "public_record list"
  sourcePrivateData :: "private_record list"
  allTasks :: "cmd list"
  neededTasks :: "task list"

record options =
  validSourceExts :: "string list"
  mediaFolderPath :: string
  opt_forceTask :: bool
  opt_numberOfConcurrentTask :: nat
  opt_publicDataPath :: "string option"
  opt_privateDataPath :: "string option"

text \<open>
  The constructor, for a machine where no dependency is missing (otherwise it returns
  before any field below is set). \<open>getFileHash\<close> is the \<^verbatim>\<open>openssl md5\<close> pipeline, a
  parameter; \<open>publicData0\<close> and \<open>privateData0\<close> are the two manifests as read from disk
  (empty when the path option is not set or the file is absent); a path option that is not
  set is \<open>None\<close>.
  A public record whose slug is already in \<open>publicData0\<close> is that earlier object,
  extended in place: two scanned files with one slug then share it, and it ends with the
  extension of the last of them.
\<close>

definition mergedPublicData :: "public_record list \<Rightarrow> file_meta list \<Rightarrow> file_meta \<Rightarrow> public_record" where
  "mergedPublicData publicData0 srcFiles f =
     (let p = filePublicData f
      in case List.find (\<lambda>q. slug q = slug p) publicData0 of
           None \<Rightarrow> p
         | Some q \<Rightarrow>
             (case List.find (\<lambda>g. slug (filePublicData g) = slug p) (rev srcFiles) of
                None \<Rightarrow> p
              | Some g \<Rightarrow> p\<lparr>extension := extension (filePublicData g)\<rparr>))"

definition privateRecord :: "(string \<Rightarrow> string) \<Rightarrow> file_meta \<Rightarrow> private_record" where
  "privateRecord getFileHash f =
     (let pd = filePrivateData f
      in \<lparr>srcFolderPath = srcFolderPath pd, srcFileName = srcFileName pd,
          srcFilePath = srcFilePath pd,
          private_slug = slug (filePublicData f),
          srcFileHash = getFileHash (srcFilePath pd)\<rparr>)"

definition construct ::
  "(string \<Rightarrow> string) \<Rightarrow> (string \<Rightarrow> string) \<Rightarrow> string list \<Rightarrow>
   public_record list \<Rightarrow> ledger \<Rightarrow> options \<Rightarrow> manager" where
  "construct slugify getFileHash readdir publicData0 privateData0 opts =
     (let srcFiles = getFilesInFolder slugify readdir (mediaFolderPath opts) (validSourceExts opts)
      in \<lparr>forceTask = opt_forceTask opts,
          numberOfConcurrentTask = opt_numberOfConcurrentTask opts,
          publicDataPath = opt_publicDataPath opts,
          privateDataPath = opt_privateDataPath opts,
          privateData = privateData0,
          sourcePublicData = map (mergedPublicData publicData0 srcFiles) srcFiles,
          sourcePrivateData = map (privateRecord getFileHash) srcFiles,
          allTasks = [],
          neededTasks = []\<rparr>)"

definition getMetadata :: "manager \<Rightarrow> public_record list" where
  "getMetadata m = sourcePublicData m"

definition getMetadataBySlug :: "manager \<Rightarrow> string \<Rightarrow> public_record option" where
  "getMetadataBySlug m s = List.find (\<lambda>r. slug r = s) (getMetadata m)"

definition getPrivateData :: "manager \<Rightarrow> private_record list" where
  "getPrivateData m = sourcePrivateData m"

definition getPrivateDataBySlug :: "manager \<Rightarrow> string \<Rightarrow> private_record option" where
  "getPrivateDataBySlug m s = List.find (\<lambda>r. private_slug r = s) (getPrivateData m)"

definition getFilePathFromMeta :: "manager \<Rightarrow> public_record \<Rightarrow> js_error + string" where
  "getFilePathFromMeta m metaObj =
     (case getPrivateDataBySlug m (slug metaObj) of
        None \<Rightarrow> Inl TypeError
      | Some r \<Rightarrow> Inr (srcFilePath r))"

subsection \<open>Registration: addTask\<close>

text \<open>
  The ledger key of a command (line 251). \<open>sha256hex\<close> is
  \<^verbatim>\<open>crypto.createHash('sha256').update(text).digest('hex')\<close>, a parameter.
\<close>

definition cmdLog :: "(string \<Rightarrow> string) \<Rightarrow> cmd \<Rightarrow> string" where
  "cmdLog sha256hex c =
     (case c of
        CmdString text \<Rightarrow> text
      | CmdFunction name src sync \<Rightarrow> name @ sha256hex src)"

text \<open>
  Line 255, disjunct by disjunct and short-circuiting: the ledger object itself is never
  falsy; a missing slug, a missing key and an empty recorded string are falsy; the last
  disjunct reads \<^verbatim>\<open>mediaPrivateData.srcFileHash\<close> and throws when the slug names no
  scanned file.
\<close>

definition ledgerTest :: "ledger \<Rightarrow> string \<Rightarrow> string \<Rightarrow> private_record option \<Rightarrow> js_error + bool" where
  "ledgerTest pd slg key mediaPrivateData =
     (case pd slg of
        None \<Rightarrow> Inr True
      | Some entries \<Rightarrow>
          (case entries key of
             None \<Rightarrow> Inr True
           | Some recorded \<Rightarrow>
               if recorded = [] then Inr True
               else (case mediaPrivateData of
                       None \<Rightarrow> Inl TypeError
                     | Some r \<Rightarrow> Inr (recorded \<noteq> srcFileHash r))))"

text \<open>
  Lines 255 to 268: the value of \<^verbatim>\<open>runTask\<close> when line 270 is reached. \<open>existsSync\<close>
  is \<^verbatim>\<open>fs.existsSync\<close>, the state of the disk.
\<close>

definition runTask ::
  "(string \<Rightarrow> string) \<Rightarrow> (string \<Rightarrow> bool) \<Rightarrow> manager \<Rightarrow> cmd \<Rightarrow> string \<Rightarrow> string \<Rightarrow> js_error + bool" where
  "runTask sha256hex existsSync m c slg outputFilePath =
     (case ledgerTest (privateData m) slg (cmdLog sha256hex c) (getPrivateDataBySlug m slg) of
        Inl e \<Rightarrow> Inl e
      | Inr r0 \<Rightarrow>
          (let r1 = (if \<not> r0 \<and> \<not> existsSync outputFilePath then True else r0);
               r2 = (if \<not> r1 \<and> forceTask m then True else r1)
           in Inr r2))"

text \<open>
  Lines 270 to 286. Line 273 creates the slug's object, line 274 reads
  \<^verbatim>\<open>mediaPrivateData.srcFileHash\<close> (and throws for an unknown slug, after line 273 has
  run), then the task is pushed; every registration that gets that far pushes the command
  on \<^verbatim>\<open>allTasks\<close>.
\<close>

definition ledgerRecord :: "ledger \<Rightarrow> string \<Rightarrow> string \<Rightarrow> string \<Rightarrow> ledger" where
  "ledgerRecord pd slg key hash =
     (case pd slg of
        None \<Rightarrow> pd(slg \<mapsto> Map.empty(key \<mapsto> hash))
      | Some entries \<Rightarrow> pd(slg \<mapsto> entries(key \<mapsto> hash)))"

definition addTask ::
  "(string \<Rightarrow> string) \<Rightarrow> (string \<Rightarrow> bool) \<Rightarrow> cmd \<Rightarrow> string \<Rightarrow> string \<Rightarrow> manager \<Rightarrow> manager completion" where
  "addTask sha256hex existsSync c slg outputFilePath m =
     (case runTask sha256hex existsSync m c slg outputFilePath of
        Inl e \<Rightarrow> Throw e m
      | Inr True \<Rightarrow>
          (case getPrivateDataBySlug m slg of
             None \<Rightarrow>
               Throw TypeError
                 (m\<lparr>privateData :=
                      (case privateData m slg of
                         None \<Rightarrow> (privateData m)(slg \<mapsto> Map.empty)
                       | Some entries \<Rightarrow> privateData m)\<rparr>)
           | Some r \<Rightarrow>
               Normal
                 (m\<lparr>privateData :=
                      ledgerRecord (privateData m) slg (cmdLog sha256hex c) (srcFileHash r),
                    neededTasks :=
                      neededTasks m @
                        [\<lparr>task_cmd = c, task_slug = slg,
                          task_media = getMetadataBySlug m slg\<rparr>],
                    allTasks := allTasks m @ [c]\<rparr>))
      | Inr False \<Rightarrow> Normal (m\<lparr>allTasks := allTasks m @ [c]\<rparr>))"

text \<open>
  The fingerprint the ledger holds for a slug and a command signature, if any.
\<close>

definition ledgerEntry :: "ledger \<Rightarrow> string \<Rightarrow> string \<Rightarrow> string option" where
  "ledgerEntry pd slg key = (case pd slg of None \<Rightarrow> None | Some entries \<Rightarrow> entries key)"

text \<open>
  The decision rule in the words of the specification (section 4.2), to be compared with
  \<open>runTask\<close>: needed when there is no entry, when the entry differs from the current
  fingerprint, when the output is absent, or when the force flag is set.
\<close>

definition needsRun_spec :: "string option \<Rightarrow> string \<Rightarrow> bool \<Rightarrow> bool \<Rightarrow> bool" where
  "needsRun_spec entry currentFingerprint outputPathExists force =
     (entry = None \<or> entry \<noteq> Some currentFingerprint \<or> \<not> outputPathExists \<or> force)"

section \<open>The convert command (class ImageSizer, src/unnamed/part_000)\<close>

text \<open>
  An entry of the filter table, \<^verbatim>\<open>{name, filter}\<close> (the fields \<open>filter_name\<close> and
  \<open>filter_str\<close>), and the three entries the module starts from; the constructor appends
  the caller's entries, and a crop appends its own.
\<close>

record filter_entry =
  filter_name :: string
  filter_str :: string

definition availableFilters :: "filter_entry list" where
  "availableFilters =
     [\<lparr>filter_name = ''strip'', filter_str = ''-strip''\<rparr>,
      \<lparr>filter_name = ''bw'', filter_str = ''-colorspace Gray''\<rparr>,
      \<lparr>filter_name = ''blur'', filter_str = ''-blur 0x5''\<rparr>]"

text \<open>\<^verbatim>\<open>Array.prototype.join\<close> on strings.\<close>

fun join :: "string \<Rightarrow> string list \<Rightarrow> string" where
  "join sep [] = []"
| "join sep [x] = x"
| "join sep (x # y # ys) = x @ sep @ join sep (y # ys)"

text \<open>
  Lines 237 to 247 of ImageSizer: each requested name is looked up in the table with
  \<^verbatim>\<open>_.find\<close>; a hit pushes its flag string, a miss is logged and pushes nothing.
\<close>

definition neededFilters :: "filter_entry list \<Rightarrow> string list \<Rightarrow> string list" where
  "neededFilters available filters =
     fold (\<lambda>f needed.
             case List.find (\<lambda>e. filter_name e = f) available of
               Some filterCmd \<Rightarrow> needed @ [filter_str filterCmd]
             | None \<Rightarrow> needed)
          filters []"

text \<open>
  Lines 231 to 260. \<open>toString\<close> is JavaScript's conversion of the width and the quality
  inside the template literal, a parameter.
\<close>

definition generateCovertCmd ::
  "('n \<Rightarrow> string) \<Rightarrow> filter_entry list \<Rightarrow> string \<Rightarrow> string \<Rightarrow> string \<Rightarrow> 'n \<Rightarrow> 'n \<Rightarrow>
   string list \<Rightarrow> string" where
  \<open>generateCovertCmd toString available inputPath outputPath fileType width quality filters =
     (let filtersStr = join '' '' (neededFilters available filters)
      in if fileType = ''png''
         then ''convert "'' @ inputPath @ ''" -quality '' @ toString quality @ '' '' @ filtersStr
              @ '' -thumbnail '' @ toString width @ ''x  png:- | pngquant --skip-if-larger - > "''
              @ outputPath @ ''"''
         else ''convert "'' @ inputPath @ ''" -quality '' @ toString quality @ '' '' @ filtersStr
              @ '' -thumbnail '' @ toString width @ ''x "'' @ outputPath @ ''"'')\<close>

section \<open>Running the tasks (media-manager.js, _runTask and runTasks)\<close>

subsection \<open>What a run does: actions and events\<close>

text \<open>
  The payload of the three milestone events and of \<^verbatim>\<open>done\<close>, as \<^verbatim>\<open>getTasksMetaData\<close>
  builds it (its lists of tasks and of media are the manager's and are left out).
\<close>

record tasks_meta =
  numberOfTasksRequested :: nat
  numberOfTasksNeeded :: nat
  numberOfTasksRun :: nat

text \<open>The events of the \<^verbatim>\<open>MediaManager\<close> namespace.\<close>

datatype event =
    Ready
  | AllTasksReady tasks_meta
  | AllTasksRunning tasks_meta
  | TaskDone string "public_record option"
  | AllTasksDone tasks_meta
  | Done tasks_meta

datatype log_level = LogInfo | LogVerbose | LogError

text \<open>
  What the code does to the world, in the order it does it: a log line, the start of a
  child process with its timeout in milliseconds, the call of a callback command, a call of
  the task's \<^verbatim>\<open>onComplete\<close> or \<^verbatim>\<open>onTimeout\<close>, an emitted event, the three calls into the
  queue (\<^verbatim>\<open>defer\<close>, the continuation the queue hands to a task, \<^verbatim>\<open>await\<close>), a kill signal
  sent to a child process, and the two writes to disk. Tasks are numbered in the order they are
  handed to the queue.
\<close>

datatype action =
    Log log_level string
  | Exec nat string nat
  | CallCmd nat string
  | OnComplete nat "string option"
  | OnTimeout nat
  | Emit event
  | QueueDefer nat
  | QueueCallback nat
  | QueueAwait
  | Kill nat
  | WritePublicData
  | WritePrivateData

definition cmdName :: "cmd \<Rightarrow> string" where
  "cmdName c = (case c of CmdString text \<Rightarrow> text | CmdFunction name src sync \<Rightarrow> name)"

text \<open>Line 321: \<^verbatim>\<open>exec(cmd, { timeout: 1000 * 60 * 10 })\<close>.\<close>

definition exec_timeout :: nat where
  "exec_timeout = 1000 * 60 * 10"

text \<open>Lines 309 to 315.\<close>

definition localComplete :: "manager \<Rightarrow> task \<Rightarrow> action list" where
  "localComplete m t =
     [Log LogInfo (''Done: '' @ cmdName (task_cmd t)),
      Emit (TaskDone (cmdName (task_cmd t)) (getMetadataBySlug m (task_slug t)))]"

subsection \<open>The handlers of a process task\<close>

text \<open>
  What a child process sends: a chunk of standard output, a chunk of standard error, and
  its exit, with a code or with \<^verbatim>\<open>null\<close> (the child was ended by a signal).
\<close>

datatype proc_event = StdoutData string | StderrData string | Exit "int option"

text \<open>
  Lines 325 to 347, one handler per equation: the new value of the closure's variable
  \<^verbatim>\<open>stdout\<close> and what the handler does.
\<close>

fun on_proc_event :: "manager \<Rightarrow> nat \<Rightarrow> task \<Rightarrow> string \<Rightarrow> proc_event \<Rightarrow> string \<times> action list" where
  "on_proc_event m i t stdout (StdoutData d) = (stdout @ d, [Log LogVerbose d])"
| "on_proc_event m i t stdout (StderrData d) =
     (stdout, [Log LogError (''exec error: '' @ d), QueueCallback i])"
| "on_proc_event m i t stdout (Exit code) =
     (stdout,
      (if stdout \<noteq> [] then [Log LogVerbose stdout] else []) @
      (case code of
         None \<Rightarrow> [OnTimeout i]
       | Some n \<Rightarrow> OnComplete i (Some stdout) # localComplete m t) @
      [QueueCallback i])"

text \<open>Lines 351 to 355: the continuation handed to a callback command.\<close>

definition on_continuation :: "manager \<Rightarrow> nat \<Rightarrow> task \<Rightarrow> action list" where
  "on_continuation m i t = OnComplete i None # localComplete m t @ [QueueCallback i]"

fun is_exit :: "proc_event \<Rightarrow> bool" where
  "is_exit (Exit code) = True"
| "is_exit e = False"


subsection \<open>The state of a run\<close>

text \<open>
  A started task is a running child process, with the standard output captured so far and
  whether its timeout has elapsed; a child process that has exited, whose streams may
  still deliver chunks; a callback command that has not yet invoked its continuation; or a
  callback command that has. \<open>timers\<close> holds the functions passed to \<^verbatim>\<open>_.defer\<close> that
  have not run yet, oldest first.
\<close>

datatype proc_state = Running string bool | Exited string | Waiting | Finished

datatype deferred = DeferredReady | DeferredRunTasks | DeferredDone

record run_state =
  mgr :: manager
  timers :: "deferred list"
  q_tasks :: "(task \<times> proc_state option) list"
  q_started :: nat
  q_active :: int
  q_remaining :: int
  q_await :: bool
  q_settled :: "nat list"
  q_repeated :: bool
  tasksRun :: nat
  trace :: "action list"

text \<open>Lines 368 to 377.\<close>

definition getTasksMetaData :: "run_state \<Rightarrow> tasks_meta" where
  "getTasksMetaData s =
     \<lparr>numberOfTasksRequested = length (allTasks (mgr s)),
      numberOfTasksNeeded = length (neededTasks (mgr s)),
      numberOfTasksRun = tasksRun s\<rparr>"

definition record_action :: "action \<Rightarrow> run_state \<Rightarrow> run_state" where
  "record_action a s = s\<lparr>trace := trace s @ [a]\<rparr>"

text \<open>
  \<^verbatim>\<open>emit\<close> runs the listeners at once: the listener of \<^verbatim>\<open>ready\<close> that ImageSizer installs
  defers \<^verbatim>\<open>runTasks\<close> (ImageSizer, lines 193 to 195), the listener of \<^verbatim>\<open>taskdone\<close>
  counts (lines 383 to 385), and the listener of \<^verbatim>\<open>alltasksdone\<close> defers the two writes
  and \<^verbatim>\<open>done\<close> (lines 390 to 396). ImageSizer re-emits every event under its own
  namespace; the trace keeps the manager's event only. Plugins, of which there are none by
  default, and other listeners of the caller are not modelled.
\<close>

fun emit :: "event \<Rightarrow> run_state \<Rightarrow> run_state" where
  "emit Ready s = (record_action (Emit Ready) s)\<lparr>timers := timers s @ [DeferredRunTasks]\<rparr>"
| "emit (TaskDone c md) s =
     (record_action (Emit (TaskDone c md)) s)\<lparr>tasksRun := tasksRun s + 1\<rparr>"
| "emit (AllTasksDone meta) s =
     (record_action (Emit (AllTasksDone meta)) s)\<lparr>timers := timers s @ [DeferredDone]\<rparr>"
| "emit e s = record_action (Emit e) s"

subsection \<open>The queue\<close>

text \<open>
  Modelled from the spec: the bounded executor \<^verbatim>\<open>queue(numberOfConcurrentTask)\<close> of the
  package queue-async, whose code is not under src/. Section 4.4 of the specification: at
  most the limit of tasks run at once, the others wait in registration order and are
  admitted as slots free up; a task releases its slot, once, by invoking the continuation
  it was handed; all tasks drained is signalled to the function given to \<^verbatim>\<open>await\<close> once no
  deferred task remains. The model counts \<open>q_active\<close> slots in use, \<open>q_remaining\<close> tasks
  not yet settled and \<open>q_started\<close> tasks admitted so far, and keeps in \<open>q_settled\<close> the
  tasks that have invoked their continuation. A task is started inside the call of
  \<^verbatim>\<open>defer\<close> when a slot is free.
\<close>

definition notify :: "run_state \<Rightarrow> run_state" where
  "notify s = (if q_await s then emit (AllTasksDone (getTasksMetaData s)) s else s)"

text \<open>
  Modelled from the spec: the first invocation of the continuation of task \<open>i\<close>, up to the
  admission of the next task. The function given to \<^verbatim>\<open>await\<close> (lines 413 to 416) emits
  \<^verbatim>\<open>alltasksdone\<close>.
\<close>

definition settle :: "nat \<Rightarrow> run_state \<Rightarrow> run_state" where
  "settle i s =
     (let s1 = s\<lparr>q_active := q_active s - 1, q_remaining := q_remaining s - 1,
                 q_settled := i # q_settled s\<rparr>
      in if q_remaining s1 = 0 then notify s1 else s1)"

text \<open>
  Modelled from the spec: the continuation the queue hands to task \<open>i\<close>, invoked. The
  first invocation settles the task and then admits waiting tasks with \<open>pop\<close> (the
  identity while the queue is itself in the middle of admitting). The specification says
  nothing of a further invocation by the same task, and the versions of the package differ
  on it: the model leaves the queue as it is and sets \<open>q_repeated\<close>, after which a run is
  not followed any further.
\<close>

definition queue_callback :: "(run_state \<Rightarrow> run_state) \<Rightarrow> nat \<Rightarrow> run_state \<Rightarrow> run_state" where
  "queue_callback pop i s =
     (if i \<in> set (q_settled s) then s\<lparr>q_repeated := True\<rparr>
      else (let s1 = settle i s in if q_remaining s1 \<noteq> 0 then pop s1 else s1))"

text \<open>
  The actions of a handler, carried out in order: an emitted event runs its listeners, an
  invocation of the continuation goes to the queue, and every action is recorded.
\<close>

fun perform :: "(run_state \<Rightarrow> run_state) \<Rightarrow> action list \<Rightarrow> run_state \<Rightarrow> run_state" where
  "perform pop [] s = s"
| "perform pop (Emit e # as) s = perform pop as (emit e s)"
| "perform pop (QueueCallback i # as) s =
     perform pop as (queue_callback pop i (record_action (QueueCallback i) s))"
| "perform pop (a # as) s = perform pop as (record_action a s)"

definition set_proc :: "nat \<Rightarrow> proc_state \<Rightarrow> run_state \<Rightarrow> run_state" where
  "set_proc i p s = s\<lparr>q_tasks := (q_tasks s)[i := (fst (q_tasks s ! i), Some p)]\<rparr>"

text \<open>
  Lines 317 to 357: the function \<^verbatim>\<open>_runTask\<close> defers, run by the queue when it admits
  task \<open>i\<close>. A string command starts a child process; a callback command is called, and
  invokes its continuation before it returns or later.
\<close>

definition start_task :: "nat \<Rightarrow> run_state \<Rightarrow> run_state" where
  "start_task i s =
     (let t = fst (q_tasks s ! i)
      in case task_cmd t of
           CmdString text \<Rightarrow>
             set_proc i (Running [] False) (record_action (Exec i text exec_timeout) s)
         | CmdFunction name src sync \<Rightarrow>
             if sync
             then perform (\<lambda>s. s) (on_continuation (mgr s) i t)
                    (set_proc i Finished (record_action (CallCmd i name) s))
             else set_proc i Waiting (record_action (CallCmd i name) s))"

text \<open>
  Modelled from the spec: admission. While a deferred task has not been started and a slot
  is free, the oldest such task is started; a limit of 0 is no limit, as the package has
  it. Every round starts one task, so the number of tasks not yet started bounds the rounds
  (lemma \<open>pop_exits\<close>).
\<close>

definition below_limit :: "run_state \<Rightarrow> bool" where
  "below_limit s =
     (q_started s < length (q_tasks s) \<and>
      (numberOfConcurrentTask (mgr s) = 0 \<or> q_active s < int (numberOfConcurrentTask (mgr s))))"

primrec pop_loop :: "nat \<Rightarrow> run_state \<Rightarrow> run_state" where
  "pop_loop 0 s = s"
| "pop_loop (Suc n) s =
     (if below_limit s
      then pop_loop n (start_task (q_started s)
                         (s\<lparr>q_started := q_started s + 1, q_active := q_active s + 1\<rparr>))
      else s)"

definition pop :: "run_state \<Rightarrow> run_state" where
  "pop s = pop_loop (length (q_tasks s) - q_started s) s"

text \<open>Modelled from the spec: \<^verbatim>\<open>defer\<close> and \<^verbatim>\<open>await\<close> of the queue.\<close>

definition queue_defer :: "task \<Rightarrow> run_state \<Rightarrow> run_state" where
  "queue_defer t s =
     pop (s\<lparr>q_tasks := q_tasks s @ [(t, None)], q_remaining := q_remaining s + 1\<rparr>)"

definition queue_await :: "run_state \<Rightarrow> run_state" where
  "queue_await s =
     (let s1 = s\<lparr>q_await := True\<rparr> in if q_remaining s1 = 0 then notify s1 else s1)"

subsection \<open>runTasks and the event loop\<close>

text \<open>Lines 294 to 317: \<^verbatim>\<open>_runTask\<close> logs and defers.\<close>

definition runTask_one :: "task \<Rightarrow> run_state \<Rightarrow> run_state" where
  "runTask_one t s =
     queue_defer t
       (record_action (QueueDefer (length (q_tasks s)))
          (record_action (Log LogInfo (''Starting: '' @ cmdName (task_cmd t))) s))"

text \<open>Lines 407 to 410: \<^verbatim>\<open>alltasksrunning\<close> follows the last \<^verbatim>\<open>_runTask\<close>.\<close>

fun forEach_task :: "task list \<Rightarrow> run_state \<Rightarrow> run_state" where
  "forEach_task [] s = s"
| "forEach_task [t] s =
     (let s1 = runTask_one t s in emit (AllTasksRunning (getTasksMetaData s1)) s1)"
| "forEach_task (t # ts) s = forEach_task ts (runTask_one t s)"

text \<open>Lines 364 to 422.\<close>

definition runTasks :: "run_state \<Rightarrow> run_state" where
  "runTasks s0 =
     (let s = s0\<lparr>tasksRun := 0\<rparr>;
          s1 = emit (AllTasksReady (getTasksMetaData s)) s
      in if length (neededTasks (mgr s1)) > 0
         then queue_await (record_action QueueAwait (forEach_task (neededTasks (mgr s1)) s1))
         else (let s2 = emit (AllTasksRunning (getTasksMetaData s1)) s1
               in emit (AllTasksDone (getTasksMetaData s2)) s2))"

text \<open>
  Lines 225 to 237: a manifest is written, after a log line, when its path option is set
  and not empty.
\<close>

definition writePublicData :: "run_state \<Rightarrow> run_state" where
  "writePublicData s =
     (case publicDataPath (mgr s) of
        None \<Rightarrow> s
      | Some p \<Rightarrow>
          if p = [] then s
          else record_action WritePublicData
                 (record_action (Log LogInfo (''Writing public data: '' @ p)) s))"

definition writePrivateData :: "run_state \<Rightarrow> run_state" where
  "writePrivateData s =
     (case privateDataPath (mgr s) of
        None \<Rightarrow> s
      | Some p \<Rightarrow>
          if p = [] then s
          else record_action WritePrivateData
                 (record_action (Log LogInfo (''Writing private data: '' @ p)) s))"

text \<open>
  The three deferred functions: the constructor's (lines 162 to 167), ImageSizer's, and
  the one of lines 391 to 395.
\<close>

fun fire :: "deferred \<Rightarrow> run_state \<Rightarrow> run_state" where
  "fire DeferredReady s = emit Ready s"
| "fire DeferredRunTasks s = runTasks s"
| "fire DeferredDone s =
     (let s1 = writePrivateData (writePublicData s)
      in emit (Done (getTasksMetaData s1)) s1)"

text \<open>
  What the event loop delivers: the oldest deferred function; an event of the child
  process of a task (any event while it runs, chunks of its streams after its exit); the
  continuation of a callback command that is waiting; and the end of the time that line 321
  gives a child process. A step that cannot happen in a state is \<open>None\<close>.

  Modelled from the documentation of \<^verbatim>\<open>child_process.exec\<close> of Node, which is not under
  src/: when a child runs longer than the \<^verbatim>\<open>timeout\<close> option, the runtime sends it the
  kill signal (\<^verbatim>\<open>SIGTERM\<close>), once; no handler of the manager runs at that moment. The exit
  that follows has the code \<^verbatim>\<open>null\<close> unless the child handles the signal.
\<close>

datatype ext_event = Timer | Proc nat proc_event | Continue nat | ExecTimeout nat

fun step :: "run_state \<Rightarrow> ext_event \<Rightarrow> run_state option" where
  "step s Timer =
     (case timers s of [] \<Rightarrow> None | d # ds \<Rightarrow> Some (fire d (s\<lparr>timers := ds\<rparr>)))"
| "step s (Proc i e) =
     (if i < length (q_tasks s)
      then (case q_tasks s ! i of
              (t, Some (Running stdout signalled)) \<Rightarrow>
                Some (perform pop (snd (on_proc_event (mgr s) i t stdout e))
                        (set_proc i
                           (if is_exit e then Exited (fst (on_proc_event (mgr s) i t stdout e))
                            else Running (fst (on_proc_event (mgr s) i t stdout e)) signalled)
                           s))
            | (t, Some (Exited stdout)) \<Rightarrow>
                if is_exit e then None
                else Some (perform pop (snd (on_proc_event (mgr s) i t stdout e))
                             (set_proc i (Exited (fst (on_proc_event (mgr s) i t stdout e))) s))
            | _ \<Rightarrow> None)
      else None)"
| "step s (Continue i) =
     (if i < length (q_tasks s)
      then (case q_tasks s ! i of
              (t, Some Waiting) \<Rightarrow>
                Some (perform pop (on_continuation (mgr s) i t) (set_proc i Finished s))
            | _ \<Rightarrow> None)
      else None)"
| "step s (ExecTimeout i) =
     (if i < length (q_tasks s)
      then (case q_tasks s ! i of
              (t, Some (Running stdout False)) \<Rightarrow>
                Some (set_proc i (Running stdout True) (record_action (Kill i) s))
            | _ \<Rightarrow> None)
      else None)"

text \<open>
  A run is followed event by event, and no further than a repeated invocation of a
  continuation of the queue.
\<close>

fun run :: "run_state \<Rightarrow> ext_event list \<Rightarrow> run_state option" where
  "run s [] = Some s"
| "run s (e # es) =
     (if q_repeated s then None
      else (case step s e of None \<Rightarrow> None | Some s' \<Rightarrow> run s' es))"

text \<open>
  The state the constructors leave: every registration made, \<^verbatim>\<open>ready\<close> deferred.
\<close>

definition init :: "manager \<Rightarrow> run_state" where
  "init m =
     \<lparr>mgr = m, timers = [DeferredReady], q_tasks = [], q_started = 0, q_active = 0,
      q_remaining = 0, q_await = False, q_settled = [], q_repeated = False, tasksRun = 0,
      trace = []\<rparr>"

subsection \<open>Observations\<close>

fun events_of :: "action list \<Rightarrow> event list" where
  "events_of [] = []"
| "events_of (Emit e # as) = e # events_of as"
| "events_of (a # as) = events_of as"

definition events_after :: "manager \<Rightarrow> ext_event list \<Rightarrow> event list option" where
  "events_after m evs = map_option (\<lambda>s. events_of (trace s)) (run (init m) evs)"

text \<open>
  The tasks that have been started and have not finished: a child process that has not
  exited, a callback command that has not invoked its continuation.
\<close>

fun alive :: "proc_state option \<Rightarrow> bool" where
  "alive (Some (Running stdout signalled)) = True"
| "alive (Some Waiting) = True"
| "alive p = False"

definition outstanding :: "run_state \<Rightarrow> nat" where
  "outstanding s = length (filter (\<lambda>(t, p). alive p) (q_tasks s))"

definition outstanding_after :: "manager \<Rightarrow> ext_event list \<Rightarrow> nat option" where
  "outstanding_after m evs = map_option outstanding (run (init m) evs)"



text \<open>The start of a task: of its child process, or the call of its callback command.\<close>

fun is_start :: "action \<Rightarrow> bool" where
  "is_start (Exec i c ms) = True"
| "is_start (CallCmd i n) = True"
| "is_start a = False"






section \<open>Example data\<close>

text \<open>
  Stand-ins for the external collaborators, used where a statement is evaluated at a
  concrete input: a digest, two disks, two fingerprinters (one whose \<^verbatim>\<open>openssl\<close>
  pipeline prints nothing, one that answers \<^verbatim>\<open>H1\<close>) and a slug function.
\<close>

definition digest_stub :: "string \<Rightarrow> string" where
  "digest_stub t = ''sha256:'' @ t"

definition all_present :: "string \<Rightarrow> bool" where
  "all_present p = True"

definition none_present :: "string \<Rightarrow> bool" where
  "none_present p = False"

definition empty_digest :: "string \<Rightarrow> string" where
  "empty_digest p = []"

definition hash_H1 :: "string \<Rightarrow> string" where
  "hash_H1 p = ''H1''"

definition example_slugify :: "string \<Rightarrow> string" where
  "example_slugify s = toLowerCase s"

definition example_options :: options where
  "example_options =
     \<lparr>validSourceExts = [''jpg'', ''png''], mediaFolderPath = ''images/'',
      opt_forceTask = False, opt_numberOfConcurrentTask = 1,
      opt_publicDataPath = Some ''data/imagedata.json'',
      opt_privateDataPath = Some ''tmp/imagedata.json''\<rparr>"

text \<open>
  Two runs over a folder holding \<^verbatim>\<open>a.jpg\<close> on a machine whose fingerprinter prints
  nothing: the first starts from an empty ledger and registers one command, the second
  starts from the ledger the first one leaves.
\<close>

definition first_run :: manager where
  "first_run = construct example_slugify empty_digest [''a.jpg''] [] Map.empty example_options"

definition first_run_registered :: manager where
  "first_run_registered =
     state_of (addTask digest_stub none_present (CmdString ''convert a'') ''a''
                 ''static/a-180.jpg'' first_run)"

definition second_run :: manager where
  "second_run =
     construct example_slugify empty_digest [''a.jpg''] []
       (privateData first_run_registered) example_options"

text \<open>The scenario of the specification: item \<^verbatim>\<open>a\<close>, fingerprint \<^verbatim>\<open>H1\<close>, empty ledger.\<close>

definition run_H1 :: manager where
  "run_H1 = construct example_slugify hash_H1 [''a.jpg''] [] Map.empty example_options"

text \<open>
  One, two and three process tasks registered for item \<^verbatim>\<open>a\<close>, with the default limit of
  one task at a time.
\<close>

definition one_task :: manager where
  "one_task =
     state_of (addTask digest_stub none_present (CmdString ''convert a'') ''a''
                 ''static/a-180.jpg'' run_H1)"

definition two_tasks :: manager where
  "two_tasks =
     state_of (addTask digest_stub none_present (CmdString ''convert a 300'') ''a''
                 ''static/a-300.jpg'' one_task)"

definition three_tasks :: manager where
  "three_tasks =
     state_of (addTask digest_stub none_present (CmdString ''convert a 460'') ''a''
                 ''static/a-460.jpg'' two_tasks)"

text \<open>One callback command that invokes its continuation before it returns.\<close>

definition one_callback_task :: manager where
  "one_callback_task =
     state_of (addTask digest_stub none_present
                 (CmdFunction ''optimise'' ''function optimise(done) { done(); }'' True) ''a''
                 ''static/a.json'' run_H1)"

text \<open>One callback command that invokes its continuation later.\<close>

definition one_async_callback_task :: manager where
  "one_async_callback_task =
     state_of (addTask digest_stub none_present
                 (CmdFunction ''optimise'' ''function optimise(done) { setTimeout(done, 5); }'' False)
                 ''a'' ''static/a.json'' run_H1)"

text \<open>A folder that holds \<^verbatim>\<open>a.jpg\<close> and \<^verbatim>\<open>a.png\<close>, and a fingerprinter that tells paths apart.\<close>

definition path_digest :: "string \<Rightarrow> string" where
  "path_digest p = ''md5 of '' @ p"

definition two_extensions :: manager where
  "two_extensions =
     construct example_slugify path_digest [''a.jpg'', ''a.png''] [] Map.empty example_options"

text \<open>Decimal numerals, for the width and the quality of an example command.\<close>

fun decimal :: "nat \<Rightarrow> string" where
  "decimal n =
     (if n < 10 then [char_of (48 + n)] else decimal (n div 10) @ [char_of (48 + n mod 10)])"

declare decimal.simps [simp del]


text \<open>
  The record the scan makes of a file named \<open>stem\<close>, a dot and \<open>ext\<close>, when the stem is
  not empty and the extension is the part after the last dot.
\<close>

definition fileRecord :: "(string \<Rightarrow> string) \<Rightarrow> string \<Rightarrow> string \<Rightarrow> string \<Rightarrow> file_meta" where
  "fileRecord slugify folderPath stem ext =
     \<lparr>filePublicData = \<lparr>slug = slugify stem, extension = ext\<rparr>,
      filePrivateData = \<lparr>srcFolderPath = folderPath, srcFileName = stem @ ''.'' @ ext,
                         srcFilePath = folderPath @ stem @ ''.'' @ ext\<rparr>\<rparr>"

section \<open>Properties of the scan and of the registration\<close>

lemmas scan_defs = getFilesInFolder_def re_test_def toLowerCase_def toLowerCase_char_def
  ends_with_line_terminator_def extname_def basename_def last_segment_def Let_def

lemmas lookup_defs = getPrivateDataBySlug_def getPrivateData_def getMetadataBySlug_def
  getMetadata_def

lemma scan_a:
  "getFilesInFolder example_slugify [''a.jpg''] ''images/'' [''jpg'', ''png''] =
     [\<lparr>filePublicData = \<lparr>slug = ''a'', extension = ''jpg''\<rparr>,
       filePrivateData = \<lparr>srcFolderPath = ''images/'', srcFileName = ''a.jpg'',
                          srcFilePath = ''images/a.jpg''\<rparr>\<rparr>]"
  by (simp add: scan_defs example_slugify_def)

lemma first_run_eq:
  "first_run =
     \<lparr>forceTask = False, numberOfConcurrentTask = 1,
      publicDataPath = Some ''data/imagedata.json'', privateDataPath = Some ''tmp/imagedata.json'', privateData = Map.empty,
      sourcePublicData = [\<lparr>slug = ''a'', extension = ''jpg''\<rparr>],
      sourcePrivateData =
        [\<lparr>srcFolderPath = ''images/'', srcFileName = ''a.jpg'', srcFilePath = ''images/a.jpg'',
          private_slug = ''a'', srcFileHash = []\<rparr>],
      allTasks = [], neededTasks = []\<rparr>"
  by (simp add: first_run_def construct_def example_options_def scan_a mergedPublicData_def
      privateRecord_def empty_digest_def)

lemma run_H1_eq:
  "run_H1 =
     \<lparr>forceTask = False, numberOfConcurrentTask = 1,
      publicDataPath = Some ''data/imagedata.json'', privateDataPath = Some ''tmp/imagedata.json'', privateData = Map.empty,
      sourcePublicData = [\<lparr>slug = ''a'', extension = ''jpg''\<rparr>],
      sourcePrivateData =
        [\<lparr>srcFolderPath = ''images/'', srcFileName = ''a.jpg'', srcFilePath = ''images/a.jpg'',
          private_slug = ''a'', srcFileHash = ''H1''\<rparr>],
      allTasks = [], neededTasks = []\<rparr>"
  by (simp add: run_H1_def construct_def example_options_def scan_a mergedPublicData_def
      privateRecord_def hash_H1_def)

lemma run_H1_item_a:
  "getPrivateDataBySlug run_H1 ''a'' =
     Some \<lparr>srcFolderPath = ''images/'', srcFileName = ''a.jpg'', srcFilePath = ''images/a.jpg'',
           private_slug = ''a'', srcFileHash = ''H1''\<rparr>"
  by (simp add: run_H1_eq lookup_defs)

lemma ledgerTest_known:
  "ledgerTest pd slg key (Some r) =
     Inr (ledgerEntry pd slg key = None \<or> ledgerEntry pd slg key = Some [] \<or>
          ledgerEntry pd slg key \<noteq> Some (srcFileHash r))"
  by (auto simp: ledgerTest_def ledgerEntry_def split: option.splits)

lemma runTask_known:
  "getPrivateDataBySlug m slg = Some r \<Longrightarrow>
   runTask h ex m c slg out =
     Inr (ledgerEntry (privateData m) slg (cmdLog h c) = None \<or>
          ledgerEntry (privateData m) slg (cmdLog h c) = Some [] \<or>
          ledgerEntry (privateData m) slg (cmdLog h c) \<noteq> Some (srcFileHash r) \<or>
          \<not> ex out \<or> forceTask m)"
  by (auto simp: runTask_def ledgerTest_known Let_def)

lemma runTask_unknown:
  "getPrivateDataBySlug m slg = None \<Longrightarrow>
   runTask h ex m c slg out = Inl TypeError \<or> runTask h ex m c slg out = Inr True"
  by (auto simp: runTask_def ledgerTest_def Let_def split: option.splits)

lemma addTask_throw_iff:
  "is_Throw (addTask h ex c slg out m) = (getPrivateDataBySlug m slg = None)"
proof (cases "getPrivateDataBySlug m slg")
  case None
  from runTask_unknown[OF None, of h ex c out] show ?thesis
    by (auto simp: addTask_def None)
next
  case (Some r)
  show ?thesis
    by (simp add: addTask_def runTask_known[OF Some] Some split: bool.splits)
qed

lemma find_None_iff_slug:
  "(List.find (\<lambda>r. private_slug r = s) xs = None) = (s \<notin> private_slug ` set xs)"
  by (auto simp: find_None_iff)

lemma ledgerEntry_record:
  "ledgerEntry (ledgerRecord pd slg key hash) s k =
     (if s = slg \<and> k = key then Some hash else ledgerEntry pd s k)"
  by (auto simp: ledgerEntry_def ledgerRecord_def split: option.splits)

text \<open>
  Claim C1, as amended. For every registration of a scanned slug, the task is classified as
  needed if and only if the ledger has no entry for the slug and the command signature, or
  the recorded fingerprint is the empty string, or it differs from the item's current
  fingerprint, or the expected output file does not exist, or the force flag is set; a
  needed task is queued, and otherwise no task is queued.
\<close>

theorem addTask_needed_iff:
  assumes "getPrivateDataBySlug m slg = Some r"
  shows "runTask h ex m c slg out =
           Inr (ledgerEntry (privateData m) slg (cmdLog h c) = None \<or>
                ledgerEntry (privateData m) slg (cmdLog h c) = Some [] \<or>
                ledgerEntry (privateData m) slg (cmdLog h c) \<noteq> Some (srcFileHash r) \<or>
                \<not> ex out \<or> forceTask m)
         \<and> neededTasks (state_of (addTask h ex c slg out m)) =
             (if runTask h ex m c slg out = Inr True
              then neededTasks m @
                     [\<lparr>task_cmd = c, task_slug = slg, task_media = getMetadataBySlug m slg\<rparr>]
              else neededTasks m)"
proof -
  let ?b = "ledgerEntry (privateData m) slg (cmdLog h c) = None \<or>
            ledgerEntry (privateData m) slg (cmdLog h c) = Some [] \<or>
            ledgerEntry (privateData m) slg (cmdLog h c) \<noteq> Some (srcFileHash r) \<or>
            \<not> ex out \<or> forceTask m"
  have rt: "runTask h ex m c slg out = Inr ?b"
    by (rule runTask_known[OF assms])
  have "neededTasks (state_of (addTask h ex c slg out m)) =
          (if ?b
           then neededTasks m @
                  [\<lparr>task_cmd = c, task_slug = slg, task_media = getMetadataBySlug m slg\<rparr>]
           else neededTasks m)"
    unfolding addTask_def rt using assms by (cases ?b) simp_all
  with rt show ?thesis by simp
qed

text \<open>
  The amended rule at the scenario of the specification: item \<^verbatim>\<open>a\<close>, no ledger entry,
  output absent, one needed task.
\<close>

theorem addTask_needed_iff_witness:
  "runTask digest_stub none_present run_H1 (CmdString ''convert a'') ''a'' ''static/a-180.jpg''
     = Inr True
   \<and> neededTasks (state_of (addTask digest_stub none_present (CmdString ''convert a'') ''a''
                               ''static/a-180.jpg'' run_H1))
     = [\<lparr>task_cmd = CmdString ''convert a'', task_slug = ''a'',
         task_media = Some \<lparr>slug = ''a'', extension = ''jpg''\<rparr>\<rparr>]"
  using addTask_needed_iff[OF run_H1_item_a, of digest_stub none_present
      "CmdString ''convert a''" "''static/a-180.jpg''"]
  by (simp add: run_H1_eq lookup_defs ledgerEntry_def none_present_def)

text \<open>
  Claim C1 as stated fails on the second of the two runs whose fingerprinter prints
  nothing: the ledger holds an entry for the pair, the entry equals the current
  fingerprint (both are empty), the output exists and the force flag is off, so the rule of
  the specification says not needed, and line 255 says needed.
\<close>

theorem empty_fingerprint_always_needed:
  "runTask digest_stub all_present second_run (CmdString ''convert a'') ''a''
     ''static/a-180.jpg'' = Inr True
   \<and> map_option srcFileHash (getPrivateDataBySlug second_run ''a'') = Some []
   \<and> \<not> needsRun_spec
         (ledgerEntry (privateData second_run) ''a'' (cmdLog digest_stub (CmdString ''convert a'')))
         [] (all_present ''static/a-180.jpg'') (forceTask second_run)"
  by (simp add: second_run_def first_run_registered_def first_run_eq construct_def
      example_options_def scan_a mergedPublicData_def privateRecord_def empty_digest_def
      addTask_def runTask_def ledgerTest_def lookup_defs cmdLog_def none_present_def
      all_present_def ledgerRecord_def ledgerEntry_def needsRun_spec_def)

text \<open>
  Claim C3. Whenever addTask classifies a task of a scanned slug as needed, it returns
  normally with the ledger entry of the slug and the command signature set to the item's
  current fingerprint, every other entry as before, and the task appended to the needed
  tasks, which nothing has run yet; a task classified as not needed leaves the ledger
  unchanged.
\<close>

theorem addTask_records_fingerprint:
  assumes "getPrivateDataBySlug m slg = Some r"
  shows "(runTask h ex m c slg out = Inr True \<longrightarrow>
            \<not> is_Throw (addTask h ex c slg out m) \<and>
            (\<forall>s k. ledgerEntry (privateData (state_of (addTask h ex c slg out m))) s k =
                     (if s = slg \<and> k = cmdLog h c then Some (srcFileHash r)
                      else ledgerEntry (privateData m) s k)) \<and>
            neededTasks (state_of (addTask h ex c slg out m)) =
              neededTasks m @
                [\<lparr>task_cmd = c, task_slug = slg, task_media = getMetadataBySlug m slg\<rparr>])
       \<and> (runTask h ex m c slg out = Inr False \<longrightarrow>
            privateData (state_of (addTask h ex c slg out m)) = privateData m)"
  using assms by (simp add: addTask_def ledgerEntry_record)

theorem addTask_records_fingerprint_witness:
  "ledgerEntry
     (privateData (state_of (addTask digest_stub none_present (CmdString ''convert a'') ''a''
                               ''static/a-180.jpg'' run_H1)))
     ''a'' ''convert a'' = Some ''H1''"
proof -
  have n: "runTask digest_stub none_present run_H1 (CmdString ''convert a'') ''a''
             ''static/a-180.jpg'' = Inr True"
    by (simp add: runTask_known[OF run_H1_item_a] none_present_def)
  from addTask_records_fingerprint[OF run_H1_item_a, of digest_stub none_present
      "CmdString ''convert a''" "''static/a-180.jpg''"] n
  have "ledgerEntry
          (privateData (state_of (addTask digest_stub none_present (CmdString ''convert a'')
                                    ''a'' ''static/a-180.jpg'' run_H1)))
          ''a'' (cmdLog digest_stub (CmdString ''convert a'')) = Some ''H1''"
    by simp
  then show ?thesis by (simp add: cmdLog_def)
qed

text \<open>
  Claim C4. The ledger key of a string command is its text, and the key of a callback is
  its name followed by the digest of its source text. The key depends on the command alone:
  a second registration of the same command for the same slug finds the entry the first one
  left, so with a non-empty fingerprint, the output present and no force flag it is not
  needed.
\<close>

theorem cmdLog_signature:
  "cmdLog h (CmdString text) = text
   \<and> cmdLog h (CmdFunction name src sync) = name @ h src
   \<and> (\<forall>m r m' out out'.
        getPrivateDataBySlug m slg = Some r \<and> srcFileHash r \<noteq> [] \<and> \<not> forceTask m \<and> ex out' \<and>
        addTask h ex c slg out m = Normal m'
        \<longrightarrow> runTask h ex m' c slg out' = Inr False)"
proof -
  have "runTask h ex m' c slg out' = Inr False"
    if k: "getPrivateDataBySlug m slg = Some r" and ne: "srcFileHash r \<noteq> []"
      and nf: "\<not> forceTask m" and ex: "ex out'" and a: "addTask h ex c slg out m = Normal m'"
    for m r m' out out'
  proof (cases "runTask h ex m c slg out = Inr True")
    case True
    with a k have m': "m' = m\<lparr>privateData :=
                                ledgerRecord (privateData m) slg (cmdLog h c) (srcFileHash r),
                              neededTasks := neededTasks m @
                                [\<lparr>task_cmd = c, task_slug = slg,
                                  task_media = getMetadataBySlug m slg\<rparr>],
                              allTasks := allTasks m @ [c]\<rparr>"
      by (simp add: addTask_def)
    have k': "getPrivateDataBySlug m' slg = Some r"
      using k by (simp add: m' lookup_defs)
    have "ledgerEntry (privateData m') slg (cmdLog h c) = Some (srcFileHash r)"
      and "forceTask m' = forceTask m"
      by (simp_all add: m' ledgerEntry_record)
    with ne nf ex show ?thesis
      by (simp add: runTask_known[OF k'])
  next
    case False
    with runTask_known[OF k, of h ex c out] have f: "runTask h ex m c slg out = Inr False"
      by auto
    with a have m': "m' = m\<lparr>allTasks := allTasks m @ [c]\<rparr>"
      by (simp add: addTask_def)
    have k': "getPrivateDataBySlug m' slg = Some r"
      using k by (simp add: m' lookup_defs)
    from f have "ledgerEntry (privateData m) slg (cmdLog h c) = Some (srcFileHash r)"
      by (auto simp: runTask_known[OF k])
    moreover have "privateData m' = privateData m" and "forceTask m' = forceTask m"
      by (simp_all add: m')
    ultimately show ?thesis
      using ne nf ex by (simp add: runTask_known[OF k'])
  qed
  then have "\<forall>m r m' out out'.
        getPrivateDataBySlug m slg = Some r \<and> srcFileHash r \<noteq> [] \<and> \<not> forceTask m \<and> ex out' \<and>
        addTask h ex c slg out m = Normal m'
        \<longrightarrow> runTask h ex m' c slg out' = Inr False"
    by blast
  then show ?thesis by (simp add: cmdLog_def)
qed

text \<open>
  The same callback registered twice for item \<^verbatim>\<open>a\<close>: the second registration, with the
  output present, is not needed.
\<close>

theorem cmdLog_signature_witness:
  "cmdLog digest_stub (CmdFunction ''optimise'' ''function optimise(done) { done(); }'' False)
     = ''optimisesha256:function optimise(done) { done(); }''
   \<and> runTask digest_stub all_present
       (state_of (addTask digest_stub all_present
                    (CmdFunction ''optimise'' ''function optimise(done) { done(); }'' False)
                    ''a'' ''static/a.json'' run_H1))
       (CmdFunction ''optimise'' ''function optimise(done) { done(); }'' False)
       ''a'' ''static/a.json'' = Inr False"
proof -
  let ?c = "CmdFunction ''optimise'' ''function optimise(done) { done(); }'' False"
  obtain m' where a: "addTask digest_stub all_present ?c ''a'' ''static/a.json'' run_H1 = Normal m'"
    using addTask_throw_iff[of digest_stub all_present ?c "''a''" "''static/a.json''" run_H1]
    by (cases "addTask digest_stub all_present ?c ''a'' ''static/a.json'' run_H1")
       (simp_all add: run_H1_item_a)
  have pre: "srcFileHash \<lparr>srcFolderPath = ''images/'', srcFileName = ''a.jpg'', srcFilePath = ''images/a.jpg'',
           private_slug = ''a'', srcFileHash = ''H1''\<rparr> \<noteq> []" "\<not> forceTask run_H1"
     "all_present ''static/a.json''"
    by (simp_all add: run_H1_eq all_present_def)
  have "\<forall>m r m' out out'.
        getPrivateDataBySlug m ''a'' = Some r \<and> srcFileHash r \<noteq> [] \<and> \<not> forceTask m \<and> all_present out' \<and>
        addTask digest_stub all_present ?c ''a'' out m = Normal m'
        \<longrightarrow> runTask digest_stub all_present m' ?c ''a'' out' = Inr False"
    using cmdLog_signature[of digest_stub "''x''" "''n''" "''s''" True "''a''" all_present ?c]
    by (rule conjunct2[THEN conjunct2])
  with run_H1_item_a pre a
  have "runTask digest_stub all_present m' ?c ''a'' ''static/a.json'' = Inr False"
    by blast
  then show ?thesis
    by (simp add: a cmdLog_def digest_stub_def)
qed

text \<open>
  Claim C7. A registration throws exactly when its slug names no scanned file; a
  registration that throws queues nothing and adds nothing to the requested commands, and a
  registration of a scanned slug does not throw.
\<close>

theorem addTask_throws_iff_unknown:
  "is_Throw (addTask h ex c slg out m) = (slg \<notin> private_slug ` set (sourcePrivateData m))
   \<and> (if slg \<in> private_slug ` set (sourcePrivateData m)
      then \<not> is_Throw (addTask h ex c slg out m)
      else neededTasks (state_of (addTask h ex c slg out m)) = neededTasks m
         \<and> allTasks (state_of (addTask h ex c slg out m)) = allTasks m)"
proof -
  have iff: "is_Throw (addTask h ex c slg out m) = (slg \<notin> private_slug ` set (sourcePrivateData m))"
    by (simp add: addTask_throw_iff getPrivateDataBySlug_def getPrivateData_def find_None_iff_slug)
  have "neededTasks (state_of (addTask h ex c slg out m)) = neededTasks m
         \<and> allTasks (state_of (addTask h ex c slg out m)) = allTasks m"
    if "getPrivateDataBySlug m slg = None"
    using runTask_unknown[OF that, of h ex c out] that by (auto simp: addTask_def)
  then show ?thesis using iff
    by (simp add: getPrivateDataBySlug_def getPrivateData_def find_None_iff_slug)
qed

section \<open>Two files, one slug\<close>

lemma takeWhile_upto:
  assumes "c \<notin> set xs"
  shows "takeWhile (\<lambda>x. x \<noteq> c) (xs @ c # ys) = xs"
proof -
  have "takeWhile (\<lambda>x. x \<noteq> c) (xs @ c # ys) = takeWhile (\<lambda>x. x \<noteq> c) xs"
    by (rule takeWhile_tail) simp
  also have "\<dots> = xs"
    using assms by (auto simp: takeWhile_eq_all_conv)
  finally show ?thesis .
qed

lemma last_segment_file:
  assumes "f \<noteq> []" "CHR ''/'' \<notin> set f"
  shows "last_segment (dir @ CHR ''/'' # f) = f"
proof -
  from assms obtain c cs where r: "rev f = c # cs" and c: "c \<noteq> CHR ''/''"
    by (cases "rev f") auto
  have "dropWhile (\<lambda>c. c = CHR ''/'') (rev (dir @ CHR ''/'' # f)) = rev f @ CHR ''/'' # rev dir"
    using r c by simp
  moreover have "takeWhile (\<lambda>c. c \<noteq> CHR ''/'') (rev f @ CHR ''/'' # rev dir) = rev f"
    using assms(2) by (intro takeWhile_upto) simp
  ultimately show ?thesis by (simp add: last_segment_def)
qed

lemma path_of_file:
  assumes "stem \<noteq> []" "CHR ''/'' \<notin> set stem" "e = ''jpg'' \<or> e = ''png''"
  shows "extname (dir @ CHR ''/'' # stem @ CHR ''.'' # e) = CHR ''.'' # e"
    and "basename (dir @ CHR ''/'' # stem @ CHR ''.'' # e) (CHR ''.'' # e) = stem"
proof -
  have ls: "last_segment (dir @ CHR ''/'' # stem @ CHR ''.'' # e) = stem @ CHR ''.'' # e"
    using assms by (intro last_segment_file) auto
  have "takeWhile (\<lambda>c. c \<noteq> CHR ''.'') (rev e @ CHR ''.'' # rev stem) = rev e"
    using assms(3) by (intro takeWhile_upto) auto
  then have tw: "takeWhile (\<lambda>c. c \<noteq> CHR ''.'') (rev (stem @ CHR ''.'' # e)) = rev e"
    by simp
  have ne: "stem @ CHR ''.'' # e \<noteq> ''..''"
    using assms(3) by (cases stem) auto
  show "extname (dir @ CHR ''/'' # stem @ CHR ''.'' # e) = CHR ''.'' # e"
    unfolding extname_def ls Let_def tw using assms(1) ne by simp
  have "length (dir @ CHR ''/'' # stem @ CHR ''.'' # e) \<noteq> length (CHR ''.'' # e)"
    by simp
  then have whole: "dir @ CHR ''/'' # stem @ CHR ''.'' # e \<noteq> CHR ''.'' # e"
    by metis
  show "basename (dir @ CHR ''/'' # stem @ CHR ''.'' # e) (CHR ''.'' # e) = stem"
    unfolding basename_def ls Let_def using assms(1) whole by simp
qed

lemma toLowerCase_ext: "toLowerCase ''jpg'' = ''jpg''" "toLowerCase ''png'' = ''png''"
  by (simp_all add: toLowerCase_def toLowerCase_char_def)

lemma dot_is_no_line_terminator: "\<not> ends_with_line_terminator (xs @ ''.'')"
proof -
  have "drop (length (xs @ ''.'') - 3) (xs @ ''.'') \<noteq> [a, b, c]" if "c \<noteq> CHR ''.''" for a b c
  proof
    assume d: "drop (length (xs @ ''.'') - 3) (xs @ ''.'') = [a, b, c]"
    have "last (drop (length (xs @ ''.'') - 3) (xs @ ''.'')) = last (xs @ ''.'')"
      by (rule last_drop) simp
    with d that show False by simp
  qed
  then show ?thesis
    by (simp add: ends_with_line_terminator_def)
qed

lemma admitted:
  assumes "e = ''jpg'' \<or> e = ''png''"
  shows "re_test (map toLowerCase [''jpg'', ''png'']) (toLowerCase (stem @ ''.'' @ e))"
proof -
  have l: "toLowerCase (stem @ ''.'' @ e) = (toLowerCase stem @ ''.'') @ e"
    using assms by (auto simp: toLowerCase_def toLowerCase_char_def)
  have "length e < length ((toLowerCase stem @ ''.'') @ e)"
    and "drop (length ((toLowerCase stem @ ''.'') @ e) - length e) ((toLowerCase stem @ ''.'') @ e) = e"
    and "take (length ((toLowerCase stem @ ''.'') @ e) - length e) ((toLowerCase stem @ ''.'') @ e)
           = toLowerCase stem @ ''.''"
    by simp_all
  then show ?thesis
    using assms dot_is_no_line_terminator[of "toLowerCase stem"] unfolding l re_test_def
    by (auto simp: toLowerCase_ext simp del: append_assoc append.simps)
qed

lemma scan_pair:
  assumes "stem1 \<noteq> []" "CHR ''/'' \<notin> set stem1" "e1 = ''jpg'' \<or> e1 = ''png''"
    and "stem2 \<noteq> []" "CHR ''/'' \<notin> set stem2" "e2 = ''jpg'' \<or> e2 = ''png''"
  shows "getFilesInFolder slugify [stem1 @ ''.'' @ e1, stem2 @ ''.'' @ e2] (dir @ ''/'')
           [''jpg'', ''png'']
         = [fileRecord slugify (dir @ ''/'') stem1 e1, fileRecord slugify (dir @ ''/'') stem2 e2]"
  unfolding getFilesInFolder_def
  using admitted[OF assms(3), of stem1] admitted[OF assms(6), of stem2]
    path_of_file[OF assms(1,2,3), of dir] path_of_file[OF assms(4,5,6), of dir]
  by (simp add: fileRecord_def Let_def)

lemma slug_merged: "slug (mergedPublicData pd0 files f) = slug (filePublicData f)"
  by (simp add: mergedPublicData_def Let_def split: option.splits)

lemma scan_member:
  assumes "stem \<noteq> []" "CHR ''/'' \<notin> set stem" "e = ''jpg'' \<or> e = ''png''"
    and "stem @ ''.'' @ e \<in> set readdir"
  shows "fileRecord slugify (dir @ ''/'') stem e
           \<in> set (getFilesInFolder slugify readdir (dir @ ''/'') [''jpg'', ''png''])"
proof -
  have "stem @ ''.'' @ e
          \<in> set (filter (\<lambda>file. re_test (map toLowerCase [''jpg'', ''png'']) (toLowerCase file)) readdir)"
    using admitted[OF assms(3), of stem] assms(4) by simp
  then show ?thesis
    unfolding getFilesInFolder_def
    using path_of_file[OF assms(1,2,3), of dir]
    by (auto simp: fileRecord_def Let_def image_iff intro!: bexI[where x = "stem @ ''.'' @ e"])
qed

lemma private_lookup_first:
  "(getPrivateDataBySlug m s = Some r) =
     (\<exists>i<length (sourcePrivateData m).
        sourcePrivateData m ! i = r \<and> private_slug r = s \<and>
        (\<forall>j<i. private_slug (sourcePrivateData m ! j) \<noteq> s))"
  by (auto simp: lookup_defs find_Some_iff)

lemma public_lookup_first:
  "(getMetadataBySlug m s = Some r) =
     (\<exists>i<length (sourcePublicData m).
        sourcePublicData m ! i = r \<and> slug r = s \<and>
        (\<forall>j<i. slug (sourcePublicData m ! j) \<noteq> s))"
  by (auto simp: lookup_defs find_Some_iff)

text \<open>
  Claim C10. Take two file names, each a non-empty stem, a dot and one of the valid
  extensions, whose stems have the same slug (the same stem with two extensions, or two
  stems that differ in what the slug function removes). Whatever else the folder holds, the
  scan admits both and gives both that one slug. A lookup by slug, private or public, finds
  a record exactly when it is the first record of its list with that slug. In the folder
  that holds the two files, every lookup by the slug therefore answers with the first file:
  its path and its fingerprint for the private record, the first public record for the
  metadata; the source path taken for either public record is the first file's, and a
  needed registration for the slug records the first file's fingerprint.
\<close>

theorem slug_collision:
  assumes "stem1 \<noteq> []" "CHR ''/'' \<notin> set stem1" "e1 = ''jpg'' \<or> e1 = ''png''"
    and "stem2 \<noteq> []" "CHR ''/'' \<notin> set stem2" "e2 = ''jpg'' \<or> e2 = ''png''"
    and "slugify stem1 = slugify stem2"
    and "m = construct slugify getFileHash [stem1 @ ''.'' @ e1, stem2 @ ''.'' @ e2] publicData0
               privateData0
               (opts\<lparr>validSourceExts := [''jpg'', ''png''], mediaFolderPath := dir @ ''/''\<rparr>)"
  shows "(stem1 @ ''.'' @ e1 \<in> set readdir \<and> stem2 @ ''.'' @ e2 \<in> set readdir \<longrightarrow>
            fileRecord slugify (dir @ ''/'') stem1 e1
              \<in> set (getFilesInFolder slugify readdir (dir @ ''/'') [''jpg'', ''png'']) \<and>
            fileRecord slugify (dir @ ''/'') stem2 e2
              \<in> set (getFilesInFolder slugify readdir (dir @ ''/'') [''jpg'', ''png'']) \<and>
            slug (filePublicData (fileRecord slugify (dir @ ''/'') stem1 e1)) =
              slug (filePublicData (fileRecord slugify (dir @ ''/'') stem2 e2)))
       \<and> ((getPrivateDataBySlug m0 s = Some r) =
            (\<exists>i<length (sourcePrivateData m0).
               sourcePrivateData m0 ! i = r \<and> private_slug r = s \<and>
               (\<forall>j<i. private_slug (sourcePrivateData m0 ! j) \<noteq> s)))
       \<and> ((getMetadataBySlug m0 s = Some p) =
            (\<exists>i<length (sourcePublicData m0).
               sourcePublicData m0 ! i = p \<and> slug p = s \<and>
               (\<forall>j<i. slug (sourcePublicData m0 ! j) \<noteq> s)))
       \<and> map srcFilePath (sourcePrivateData m) =
           [dir @ ''/'' @ stem1 @ ''.'' @ e1, dir @ ''/'' @ stem2 @ ''.'' @ e2]
       \<and> map private_slug (sourcePrivateData m) = [slugify stem1, slugify stem1]
       \<and> map slug (sourcePublicData m) = [slugify stem1, slugify stem1]
       \<and> map_option srcFilePath (getPrivateDataBySlug m (slugify stem2)) =
           Some (dir @ ''/'' @ stem1 @ ''.'' @ e1)
       \<and> map_option srcFileHash (getPrivateDataBySlug m (slugify stem2)) =
           Some (getFileHash (dir @ ''/'' @ stem1 @ ''.'' @ e1))
       \<and> getMetadataBySlug m (slugify stem2) = Some (sourcePublicData m ! 0)
       \<and> (\<forall>metaObj\<in>set (getMetadata m).
             getFilePathFromMeta m metaObj = Inr (dir @ ''/'' @ stem1 @ ''.'' @ e1))
       \<and> (runTask h ex m c (slugify stem2) out = Inr True \<longrightarrow>
            ledgerEntry (privateData (state_of (addTask h ex c (slugify stem2) out m)))
              (slugify stem2) (cmdLog h c) = Some (getFileHash (dir @ ''/'' @ stem1 @ ''.'' @ e1)))"
proof -
  let ?d = "dir @ ''/''"
  have scan: "getFilesInFolder slugify [stem1 @ ''.'' @ e1, stem2 @ ''.'' @ e2] ?d [''jpg'', ''png'']
         = [fileRecord slugify ?d stem1 e1, fileRecord slugify ?d stem2 e2]"
    by (rule scan_pair[OF assms(1-6)])
  have priv: "sourcePrivateData m =
     [privateRecord getFileHash (fileRecord slugify ?d stem1 e1),
      privateRecord getFileHash (fileRecord slugify ?d stem2 e2)]"
    unfolding assms(8) construct_def by (simp add: scan Let_def del: append.simps)
  have pub: "sourcePublicData m =
     map (mergedPublicData publicData0
            [fileRecord slugify ?d stem1 e1, fileRecord slugify ?d stem2 e2])
       [fileRecord slugify ?d stem1 e1, fileRecord slugify ?d stem2 e2]"
    unfolding assms(8) construct_def by (simp add: scan Let_def del: append.simps)
  have k: "getPrivateDataBySlug m (slugify stem2) =
             Some (privateRecord getFileHash (fileRecord slugify ?d stem1 e1))"
    by (simp add: lookup_defs priv privateRecord_def fileRecord_def assms(7))
  have any_listing:
    "stem1 @ ''.'' @ e1 \<in> set readdir \<and> stem2 @ ''.'' @ e2 \<in> set readdir \<longrightarrow>
       fileRecord slugify (dir @ ''/'') stem1 e1
         \<in> set (getFilesInFolder slugify readdir (dir @ ''/'') [''jpg'', ''png'']) \<and>
       fileRecord slugify (dir @ ''/'') stem2 e2
         \<in> set (getFilesInFolder slugify readdir (dir @ ''/'') [''jpg'', ''png'']) \<and>
       slug (filePublicData (fileRecord slugify (dir @ ''/'') stem1 e1)) =
         slug (filePublicData (fileRecord slugify (dir @ ''/'') stem2 e2))"
    using scan_member[OF assms(1-3), of readdir slugify dir]
      scan_member[OF assms(4-6), of readdir slugify dir] assms(7)
    by (simp add: fileRecord_def)
  have first_private:
    "(getPrivateDataBySlug m0 s = Some r) =
       (\<exists>i<length (sourcePrivateData m0).
          sourcePrivateData m0 ! i = r \<and> private_slug r = s \<and>
          (\<forall>j<i. private_slug (sourcePrivateData m0 ! j) \<noteq> s))"
    by (rule private_lookup_first)
  have first_public:
    "(getMetadataBySlug m0 s = Some p) =
       (\<exists>i<length (sourcePublicData m0).
          sourcePublicData m0 ! i = p \<and> slug p = s \<and>
          (\<forall>j<i. slug (sourcePublicData m0 ! j) \<noteq> s))"
    by (rule public_lookup_first)
  have paths: "map srcFilePath (sourcePrivateData m) =
           [dir @ ''/'' @ stem1 @ ''.'' @ e1, dir @ ''/'' @ stem2 @ ''.'' @ e2]"
    by (simp add: priv privateRecord_def fileRecord_def)
  have pslugs: "map private_slug (sourcePrivateData m) = [slugify stem1, slugify stem1]"
    by (simp add: priv privateRecord_def fileRecord_def assms(7))
  have slugs: "map slug (sourcePublicData m) = [slugify stem1, slugify stem1]"
    by (simp add: pub slug_merged fileRecord_def assms(7))
  have path1: "map_option srcFilePath (getPrivateDataBySlug m (slugify stem2)) =
           Some (dir @ ''/'' @ stem1 @ ''.'' @ e1)"
    by (simp add: k privateRecord_def fileRecord_def)
  have hash1: "map_option srcFileHash (getPrivateDataBySlug m (slugify stem2)) =
           Some (getFileHash (dir @ ''/'' @ stem1 @ ''.'' @ e1))"
    by (simp add: k privateRecord_def fileRecord_def)
  have meta: "getMetadataBySlug m (slugify stem2) = Some (sourcePublicData m ! 0)"
    by (simp add: lookup_defs pub slug_merged fileRecord_def assms(7))
  have fp: "\<forall>metaObj\<in>set (getMetadata m).
              getFilePathFromMeta m metaObj = Inr (dir @ ''/'' @ stem1 @ ''.'' @ e1)"
  proof
    fix metaObj
    assume "metaObj \<in> set (getMetadata m)"
    with slugs have "slug metaObj = slugify stem2"
      by (auto simp: getMetadata_def pub slug_merged fileRecord_def assms(7))
    then show "getFilePathFromMeta m metaObj = Inr (dir @ ''/'' @ stem1 @ ''.'' @ e1)"
      by (simp add: getFilePathFromMeta_def k) (simp add: privateRecord_def fileRecord_def)
  qed
  have reg: "runTask h ex m c (slugify stem2) out = Inr True \<longrightarrow>
            ledgerEntry (privateData (state_of (addTask h ex c (slugify stem2) out m)))
              (slugify stem2) (cmdLog h c) = Some (getFileHash (dir @ ''/'' @ stem1 @ ''.'' @ e1))"
    by (simp add: addTask_def k ledgerEntry_record) (simp add: privateRecord_def fileRecord_def)
  show ?thesis
    by (intro conjI; fact)
qed


text \<open>
  The folder with \<^verbatim>\<open>a.jpg\<close> and \<^verbatim>\<open>a.png\<close>: the source path taken for the public record
  of \<^verbatim>\<open>a.png\<close> is \<^verbatim>\<open>images/a.jpg\<close>, and the fingerprint found for slug \<^verbatim>\<open>a\<close> is that of
  \<^verbatim>\<open>images/a.jpg\<close>.
\<close>

theorem slug_collision_witness:
  "getMetadata two_extensions =
     [\<lparr>slug = ''a'', extension = ''jpg''\<rparr>, \<lparr>slug = ''a'', extension = ''png''\<rparr>]
   \<and> getFilePathFromMeta two_extensions \<lparr>slug = ''a'', extension = ''png''\<rparr> = Inr ''images/a.jpg''
   \<and> map_option srcFileHash (getPrivateDataBySlug two_extensions ''a'') =
       Some ''md5 of images/a.jpg''"
proof -
  have md: "getMetadata two_extensions =
     [\<lparr>slug = ''a'', extension = ''jpg''\<rparr>, \<lparr>slug = ''a'', extension = ''png''\<rparr>]"
    by (simp add: two_extensions_def construct_def example_options_def scan_defs
        example_slugify_def mergedPublicData_def getMetadata_def)
  have m: "two_extensions =
     construct example_slugify path_digest [''a'' @ ''.'' @ ''jpg'', ''a'' @ ''.'' @ ''png''] []
       Map.empty
       (example_options\<lparr>validSourceExts := [''jpg'', ''png''], mediaFolderPath := ''images'' @ ''/''\<rparr>)"
    by (simp add: two_extensions_def example_options_def)
  have stem: "''a'' \<noteq> []" "CHR ''/'' \<notin> set ''a''"
    by simp_all
  have ext: "''jpg'' = ''jpg'' \<or> ''jpg'' = ''png''" "''png'' = ''jpg'' \<or> ''png'' = ''png''"
    by simp_all
  have same: "example_slugify ''a'' = example_slugify ''a''"
    by simp
  note collision = slug_collision[OF stem ext(1) stem ext(2) same m]
  have "\<forall>metaObj\<in>set (getMetadata two_extensions).
          getFilePathFromMeta two_extensions metaObj = Inr (''images'' @ ''/'' @ ''a'' @ ''.'' @ ''jpg'')"
    and "map_option srcFileHash (getPrivateDataBySlug two_extensions (example_slugify ''a'')) =
           Some (path_digest (''images'' @ ''/'' @ ''a'' @ ''.'' @ ''jpg''))"
    using collision by blast+
  with md show ?thesis
    by (simp add: example_slugify_def toLowerCase_def toLowerCase_char_def path_digest_def)
qed

section \<open>Properties of the convert command\<close>

lemma fold_neededFilters:
  "fold (\<lambda>f needed.
           case List.find (\<lambda>e. filter_name e = f) available of
             Some filterCmd \<Rightarrow> needed @ [filter_str filterCmd]
           | None \<Rightarrow> needed) filters acc
   = acc @ map filter_str
             (List.map_filter (\<lambda>f. List.find (\<lambda>e. filter_name e = f) available) filters)"
  by (induction filters arbitrary: acc) (auto simp: List.map_filter_simps split: option.splits)

lemma neededFilters_eq:
  "neededFilters available filters =
     map filter_str
       (List.map_filter (\<lambda>f. List.find (\<lambda>e. filter_name e = f) available) filters)"
  by (simp add: neededFilters_def fold_neededFilters)

lemma neededFilters_known:
  "neededFilters available filters =
   neededFilters available (filter (\<lambda>f. f \<in> filter_name ` set available) filters)"
  unfolding neededFilters_eq
proof (induction filters)
  case Nil
  show ?case by simp
next
  case (Cons f fs)
  have "(List.find (\<lambda>e. filter_name e = f) available = None) = (f \<notin> filter_name ` set available)"
    by (auto simp: find_None_iff)
  with Cons show ?case
    by (cases "List.find (\<lambda>e. filter_name e = f) available") (auto simp: List.map_filter_simps)
qed

text \<open>
  Claim C8. The command is the template filled with the input path, the quality, the flag
  strings of the requested filters joined by single spaces, the width and the output path;
  the flag strings are those of the requested names, in order, that the table of available
  filters knows (the first entry of each name), and a name the table does not know
  contributes nothing; the file type \<^verbatim>\<open>png\<close> gives the pipeline through \<^verbatim>\<open>pngquant\<close>, every
  other file type the plain \<^verbatim>\<open>convert\<close> command.
\<close>

theorem generateCovertCmd_template:
  \<open>generateCovertCmd toString available inputPath outputPath fileType width quality filters =
     (if fileType = ''png''
      then ''convert "'' @ inputPath @ ''" -quality '' @ toString quality @ '' ''
           @ join '' '' (map filter_str
                (List.map_filter (\<lambda>f. List.find (\<lambda>e. filter_name e = f) available) filters))
           @ '' -thumbnail '' @ toString width @ ''x  png:- | pngquant --skip-if-larger - > "''
           @ outputPath @ ''"''
      else ''convert "'' @ inputPath @ ''" -quality '' @ toString quality @ '' ''
           @ join '' '' (map filter_str
                (List.map_filter (\<lambda>f. List.find (\<lambda>e. filter_name e = f) available) filters))
           @ '' -thumbnail '' @ toString width @ ''x "'' @ outputPath @ ''"'')
   \<and> generateCovertCmd toString available inputPath outputPath fileType width quality filters =
     generateCovertCmd toString available inputPath outputPath fileType width quality
       (filter (\<lambda>f. f \<in> filter_name ` set available) filters)\<close>
proof -
  have \<open>generateCovertCmd toString available inputPath outputPath fileType width quality filters =
     generateCovertCmd toString available inputPath outputPath fileType width quality
       (filter (\<lambda>f. f \<in> filter_name ` set available) filters)\<close>
    unfolding generateCovertCmd_def using neededFilters_known[of available filters] by simp
  then show ?thesis
    by (simp add: generateCovertCmd_def neededFilters_eq Let_def)
qed

lemma generateCovertCmd_png_example:
  \<open>generateCovertCmd decimal availableFilters ''images/a.png'' ''static/a-180.png'' ''png'' 180 80
      [''bw'', ''sepia'', ''strip'']
   = ''convert "images/a.png" -quality 80 -colorspace Gray -strip -thumbnail 180x  png:- | pngquant --skip-if-larger - > "static/a-180.png"''\<close>
  by (simp add: generateCovertCmd_def neededFilters_def availableFilters_def decimal.simps
      char_of_def bit_0)

lemma generateCovertCmd_jpg_example:
  \<open>generateCovertCmd decimal availableFilters ''images/a.jpg'' ''static/a-180_x2.jpg'' ''jpg'' 360 80 []
   = ''convert "images/a.jpg" -quality 80  -thumbnail 360x "static/a-180_x2.jpg"''\<close>
  by (simp add: generateCovertCmd_def neededFilters_def availableFilters_def decimal.simps
      char_of_def bit_0)

section \<open>Properties of a process task\<close>








section \<open>The kill signals of a run\<close>



















section \<open>Properties of the queue and of a run\<close>

lemma emit_queue:
  "q_tasks (emit e s) = q_tasks s" "q_started (emit e s) = q_started s"
  by (cases e; simp add: record_action_def)+

lemma settle_queue:
  "q_tasks (settle i s) = q_tasks s" "q_started (settle i s) = q_started s"
  by (simp_all add: settle_def notify_def emit_queue record_action_def Let_def)

lemma perform_inner_queue:
  "q_tasks (perform (\<lambda>s. s) as s) = q_tasks s \<and> q_started (perform (\<lambda>s. s) as s) = q_started s"
proof (induction as arbitrary: s)
  case Nil
  show ?case by simp
next
  case (Cons a as)
  show ?case
    by (cases a)
       (simp_all add: Cons emit_queue settle_queue record_action_def queue_callback_def Let_def)
qed

lemma start_task_queue:
  "length (q_tasks (start_task i s)) = length (q_tasks s)"
  "q_started (start_task i s) = q_started s"
  by (simp_all add: start_task_def Let_def perform_inner_queue set_proc_def record_action_def
      split: cmd.splits)

lemma pop_loop_exits:
  "length (q_tasks s) - q_started s \<le> n \<Longrightarrow> \<not> below_limit (pop_loop n s)"
proof (induction n arbitrary: s)
  case 0
  then show ?case by (simp add: below_limit_def)
next
  case (Suc n)
  show ?case
  proof (cases "below_limit s")
    case True
    let ?s = "start_task (q_started s) (s\<lparr>q_started := q_started s + 1, q_active := q_active s + 1\<rparr>)"
    have "length (q_tasks ?s) - q_started ?s \<le> n"
      using Suc.prems by (simp add: start_task_queue)
    from Suc.IH[OF this] True show ?thesis by simp
  next
    case False
    then show ?thesis by simp
  qed
qed

lemma pop_exits: "\<not> below_limit (pop s)"
  by (simp add: pop_def pop_loop_exits)


lemmas run_defs = init_def runTasks_def runTask_one_def queue_defer_def queue_await_def
  pop_def below_limit_def start_task_def set_proc_def settle_def queue_callback_def notify_def
  getTasksMetaData_def
  record_action_def on_continuation_def localComplete_def cmdName_def exec_timeout_def
  writePublicData_def writePrivateData_def Let_def

lemma one_task_eq:
  "one_task =
     \<lparr>forceTask = False, numberOfConcurrentTask = 1,
      publicDataPath = Some ''data/imagedata.json'', privateDataPath = Some ''tmp/imagedata.json'',
      privateData = ledgerRecord Map.empty ''a'' ''convert a'' ''H1'',
      sourcePublicData = [\<lparr>slug = ''a'', extension = ''jpg''\<rparr>],
      sourcePrivateData =
        [\<lparr>srcFolderPath = ''images/'', srcFileName = ''a.jpg'', srcFilePath = ''images/a.jpg'',
          private_slug = ''a'', srcFileHash = ''H1''\<rparr>],
      allTasks = [CmdString ''convert a''],
      neededTasks =
        [\<lparr>task_cmd = CmdString ''convert a'', task_slug = ''a'',
          task_media = Some \<lparr>slug = ''a'', extension = ''jpg''\<rparr>\<rparr>]\<rparr>"
  by (simp add: one_task_def addTask_def runTask_def ledgerTest_def run_H1_eq lookup_defs
      none_present_def cmdLog_def)

lemma two_tasks_eq:
  "two_tasks =
     \<lparr>forceTask = False, numberOfConcurrentTask = 1,
      publicDataPath = Some ''data/imagedata.json'', privateDataPath = Some ''tmp/imagedata.json'',
      privateData =
        ledgerRecord (ledgerRecord Map.empty ''a'' ''convert a'' ''H1'')
          ''a'' ''convert a 300'' ''H1'',
      sourcePublicData = [\<lparr>slug = ''a'', extension = ''jpg''\<rparr>],
      sourcePrivateData =
        [\<lparr>srcFolderPath = ''images/'', srcFileName = ''a.jpg'', srcFilePath = ''images/a.jpg'',
          private_slug = ''a'', srcFileHash = ''H1''\<rparr>],
      allTasks = [CmdString ''convert a'', CmdString ''convert a 300''],
      neededTasks =
        [\<lparr>task_cmd = CmdString ''convert a'', task_slug = ''a'',
          task_media = Some \<lparr>slug = ''a'', extension = ''jpg''\<rparr>\<rparr>,
         \<lparr>task_cmd = CmdString ''convert a 300'', task_slug = ''a'',
          task_media = Some \<lparr>slug = ''a'', extension = ''jpg''\<rparr>\<rparr>]\<rparr>"
  by (simp add: two_tasks_def one_task_eq addTask_def runTask_def ledgerTest_def lookup_defs
      none_present_def cmdLog_def ledgerRecord_def)

lemma three_tasks_eq:
  "three_tasks =
     \<lparr>forceTask = False, numberOfConcurrentTask = 1,
      publicDataPath = Some ''data/imagedata.json'', privateDataPath = Some ''tmp/imagedata.json'',
      privateData =
        ledgerRecord
          (ledgerRecord (ledgerRecord Map.empty ''a'' ''convert a'' ''H1'')
             ''a'' ''convert a 300'' ''H1'')
          ''a'' ''convert a 460'' ''H1'',
      sourcePublicData = [\<lparr>slug = ''a'', extension = ''jpg''\<rparr>],
      sourcePrivateData =
        [\<lparr>srcFolderPath = ''images/'', srcFileName = ''a.jpg'', srcFilePath = ''images/a.jpg'',
          private_slug = ''a'', srcFileHash = ''H1''\<rparr>],
      allTasks = [CmdString ''convert a'', CmdString ''convert a 300'', CmdString ''convert a 460''],
      neededTasks =
        [\<lparr>task_cmd = CmdString ''convert a'', task_slug = ''a'',
          task_media = Some \<lparr>slug = ''a'', extension = ''jpg''\<rparr>\<rparr>,
         \<lparr>task_cmd = CmdString ''convert a 300'', task_slug = ''a'',
          task_media = Some \<lparr>slug = ''a'', extension = ''jpg''\<rparr>\<rparr>,
         \<lparr>task_cmd = CmdString ''convert a 460'', task_slug = ''a'',
          task_media = Some \<lparr>slug = ''a'', extension = ''jpg''\<rparr>\<rparr>]\<rparr>"
  by (simp add: three_tasks_def two_tasks_eq addTask_def runTask_def ledgerTest_def lookup_defs
      none_present_def cmdLog_def ledgerRecord_def)

lemma events_of_append: "events_of (xs @ ys) = events_of xs @ events_of ys"
  by (induction xs rule: events_of.induct) simp_all

lemma events_write:
  "events_of (trace (writePrivateData (writePublicData s))) = events_of (trace s)"
  by (simp add: writePublicData_def writePrivateData_def record_action_def events_of_append
      split: option.splits)

lemma write_keeps:
  "mgr (writePrivateData (writePublicData s)) = mgr s"
  "tasksRun (writePrivateData (writePublicData s)) = tasksRun s"
  by (simp_all add: writePublicData_def writePrivateData_def record_action_def
      split: option.splits)

lemma zero_needed_run:
  assumes "neededTasks m = []"
  shows "events_after m [Timer, Timer, Timer] =
    Some [Ready,
      AllTasksReady \<lparr>numberOfTasksRequested = length (allTasks m),
                     numberOfTasksNeeded = 0, numberOfTasksRun = 0\<rparr>,
      AllTasksRunning \<lparr>numberOfTasksRequested = length (allTasks m),
                       numberOfTasksNeeded = 0, numberOfTasksRun = 0\<rparr>,
      AllTasksDone \<lparr>numberOfTasksRequested = length (allTasks m),
                    numberOfTasksNeeded = 0, numberOfTasksRun = 0\<rparr>,
      Done \<lparr>numberOfTasksRequested = length (allTasks m),
            numberOfTasksNeeded = 0, numberOfTasksRun = 0\<rparr>]
    \<and> map_option (\<lambda>s. filter (\<lambda>a. a = QueueAwait \<or> is_start a) (trace s))
        (run (init m) [Timer, Timer, Timer]) = Some []"
  using assms
  by (simp add: events_after_def init_def runTasks_def getTasksMetaData_def record_action_def
      events_of_append events_write write_keeps Let_def)
     (simp add: writePublicData_def writePrivateData_def record_action_def split: option.splits)

lemma clean_run_events:
  "events_after one_task [Timer, Timer, Proc 0 (StdoutData ''ok''), Proc 0 (Exit (Some 0)), Timer] =
     Some [Ready,
       AllTasksReady \<lparr>numberOfTasksRequested = 1, numberOfTasksNeeded = 1, numberOfTasksRun = 0\<rparr>,
       AllTasksRunning \<lparr>numberOfTasksRequested = 1, numberOfTasksNeeded = 1, numberOfTasksRun = 0\<rparr>,
       TaskDone ''convert a'' (Some \<lparr>slug = ''a'', extension = ''jpg''\<rparr>),
       AllTasksDone \<lparr>numberOfTasksRequested = 1, numberOfTasksNeeded = 1, numberOfTasksRun = 1\<rparr>,
       Done \<lparr>numberOfTasksRequested = 1, numberOfTasksNeeded = 1, numberOfTasksRun = 1\<rparr>]"
  by (simp add: events_after_def one_task_eq run_defs lookup_defs)

text \<open>
  Claim C2, on a run the code can make: one needed task whose child process writes to
  standard error and later exits with code 0. The write releases the only task of the
  queue, so \<^verbatim>\<open>alltasksdone\<close> and \<^verbatim>\<open>done\<close> are emitted, both counting no task run, and
  \<^verbatim>\<open>taskdone\<close> is emitted after them when the process exits.
\<close>

theorem stderr_output_breaks_event_order:
  "events_after one_task
     [Timer, Timer, Proc 0 (StderrData ''warning''), Timer, Proc 0 (Exit (Some 0))] =
     Some [Ready,
       AllTasksReady \<lparr>numberOfTasksRequested = 1, numberOfTasksNeeded = 1, numberOfTasksRun = 0\<rparr>,
       AllTasksRunning \<lparr>numberOfTasksRequested = 1, numberOfTasksNeeded = 1, numberOfTasksRun = 0\<rparr>,
       AllTasksDone \<lparr>numberOfTasksRequested = 1, numberOfTasksNeeded = 1, numberOfTasksRun = 0\<rparr>,
       Done \<lparr>numberOfTasksRequested = 1, numberOfTasksNeeded = 1, numberOfTasksRun = 0\<rparr>,
       TaskDone ''convert a'' (Some \<lparr>slug = ''a'', extension = ''jpg''\<rparr>)]"
  by (simp add: events_after_def one_task_eq run_defs lookup_defs)

text \<open>
  Claim C5, on a run the code can make: two needed tasks and a limit of one. The first
  child process writes to standard error, which releases its slot while it is still
  running; the second task is started, and two tasks are outstanding.
\<close>

theorem stderr_output_exceeds_limit:
  "numberOfConcurrentTask two_tasks = 1
   \<and> outstanding_after two_tasks [Timer, Timer] = Some 1
   \<and> outstanding_after two_tasks [Timer, Timer, Proc 0 (StderrData ''warning'')] = Some 2"
  by (simp add: outstanding_after_def outstanding_def two_tasks_eq run_defs lookup_defs)







text \<open>
  Further runs. A callback command that invokes its continuation before it returns has its
  \<^verbatim>\<open>taskdone\<close> emitted before \<^verbatim>\<open>alltasksrunning\<close>. Three tasks that write nothing to
  standard error are started in the order of their registration, one at a time. A callback
  command that invokes its continuation later runs in order, and is sent no event of a
  child process. A chunk of standard error that arrives after the exit invokes the
  continuation of a settled task again, and so does the exit of a child that wrote to
  standard error; the run is not followed beyond that.
\<close>

lemma one_callback_task_eq:
  "one_callback_task =
     \<lparr>forceTask = False, numberOfConcurrentTask = 1,
      publicDataPath = Some ''data/imagedata.json'', privateDataPath = Some ''tmp/imagedata.json'',
      privateData =
        ledgerRecord Map.empty ''a'' ''optimisesha256:function optimise(done) { done(); }'' ''H1'',
      sourcePublicData = [\<lparr>slug = ''a'', extension = ''jpg''\<rparr>],
      sourcePrivateData =
        [\<lparr>srcFolderPath = ''images/'', srcFileName = ''a.jpg'', srcFilePath = ''images/a.jpg'',
          private_slug = ''a'', srcFileHash = ''H1''\<rparr>],
      allTasks = [CmdFunction ''optimise'' ''function optimise(done) { done(); }'' True],
      neededTasks =
        [\<lparr>task_cmd = CmdFunction ''optimise'' ''function optimise(done) { done(); }'' True,
          task_slug = ''a'', task_media = Some \<lparr>slug = ''a'', extension = ''jpg''\<rparr>\<rparr>]\<rparr>"
  by (simp add: one_callback_task_def addTask_def runTask_def ledgerTest_def run_H1_eq lookup_defs
      none_present_def cmdLog_def digest_stub_def)

lemma sync_callback_done_before_running:
  "events_after one_callback_task [Timer, Timer, Timer] =
     Some [Ready,
       AllTasksReady \<lparr>numberOfTasksRequested = 1, numberOfTasksNeeded = 1, numberOfTasksRun = 0\<rparr>,
       TaskDone ''optimise'' (Some \<lparr>slug = ''a'', extension = ''jpg''\<rparr>),
       AllTasksRunning \<lparr>numberOfTasksRequested = 1, numberOfTasksNeeded = 1, numberOfTasksRun = 1\<rparr>,
       AllTasksDone \<lparr>numberOfTasksRequested = 1, numberOfTasksNeeded = 1, numberOfTasksRun = 1\<rparr>,
       Done \<lparr>numberOfTasksRequested = 1, numberOfTasksNeeded = 1, numberOfTasksRun = 1\<rparr>]"
  by (simp add: events_after_def one_callback_task_eq run_defs lookup_defs)

lemma start_order_is_registration_order:
  "map_option (\<lambda>s. filter is_start (trace s))
     (run (init three_tasks)
        [Timer, Timer, Proc 0 (Exit (Some 0)), Proc 1 (Exit (Some 0)), Proc 2 (Exit (Some 0))]) =
     Some [Exec 0 ''convert a'' 600000, Exec 1 ''convert a 300'' 600000,
           Exec 2 ''convert a 460'' 600000]
   \<and> outstanding_after three_tasks [Timer, Timer, Proc 0 (Exit (Some 0))] = Some 1
   \<and> outstanding_after three_tasks
       [Timer, Timer, Proc 0 (Exit (Some 0)), Proc 1 (Exit (Some 0))] = Some 1"
  by (simp add: outstanding_after_def outstanding_def three_tasks_eq run_defs lookup_defs)

lemma repeated_invocation:
  "map_option (\<lambda>s. (q_repeated s, count_list (trace s) (QueueCallback 0)))
     (run (init one_task) [Timer, Timer, Proc 0 (Exit (Some 0)), Proc 0 (StderrData ''late'')])
     = Some (True, 2)
   \<and> map_option (\<lambda>s. (q_repeated s, count_list (trace s) (QueueCallback 0)))
       (run (init two_tasks)
          [Timer, Timer, Proc 0 (StderrData ''warning''), Proc 0 (Exit (Some 0))])
     = Some (True, 2)
   \<and> run (init two_tasks)
       [Timer, Timer, Proc 0 (StderrData ''warning''), Proc 0 (Exit (Some 0)),
        Proc 1 (Exit (Some 0))] = None"
  by (simp add: one_task_eq two_tasks_eq run_defs lookup_defs)

lemma one_async_callback_task_eq:
  "one_async_callback_task =
     \<lparr>forceTask = False, numberOfConcurrentTask = 1,
      publicDataPath = Some ''data/imagedata.json'', privateDataPath = Some ''tmp/imagedata.json'',
      privateData =
        ledgerRecord Map.empty ''a''
          ''optimisesha256:function optimise(done) { setTimeout(done, 5); }'' ''H1'',
      sourcePublicData = [\<lparr>slug = ''a'', extension = ''jpg''\<rparr>],
      sourcePrivateData =
        [\<lparr>srcFolderPath = ''images/'', srcFileName = ''a.jpg'', srcFilePath = ''images/a.jpg'',
          private_slug = ''a'', srcFileHash = ''H1''\<rparr>],
      allTasks = [CmdFunction ''optimise'' ''function optimise(done) { setTimeout(done, 5); }'' False],
      neededTasks =
        [\<lparr>task_cmd = CmdFunction ''optimise'' ''function optimise(done) { setTimeout(done, 5); }'' False,
          task_slug = ''a'', task_media = Some \<lparr>slug = ''a'', extension = ''jpg''\<rparr>\<rparr>]\<rparr>"
  by (simp add: one_async_callback_task_def addTask_def runTask_def ledgerTest_def run_H1_eq
      lookup_defs none_present_def cmdLog_def digest_stub_def)

lemma async_callback_run:
  "map_option trace (run (init one_async_callback_task) [Timer, Timer, Continue 0, Timer]) =
     Some [Emit Ready,
       Emit (AllTasksReady \<lparr>numberOfTasksRequested = 1, numberOfTasksNeeded = 1, numberOfTasksRun = 0\<rparr>),
       Log LogInfo ''Starting: optimise'', QueueDefer 0, CallCmd 0 ''optimise'',
       Emit (AllTasksRunning \<lparr>numberOfTasksRequested = 1, numberOfTasksNeeded = 1, numberOfTasksRun = 0\<rparr>),
       QueueAwait,
       OnComplete 0 None, Log LogInfo ''Done: optimise'',
       Emit (TaskDone ''optimise'' (Some \<lparr>slug = ''a'', extension = ''jpg''\<rparr>)),
       QueueCallback 0,
       Emit (AllTasksDone \<lparr>numberOfTasksRequested = 1, numberOfTasksNeeded = 1, numberOfTasksRun = 1\<rparr>),
       Log LogInfo ''Writing public data: data/imagedata.json'', WritePublicData,
       Log LogInfo ''Writing private data: tmp/imagedata.json'', WritePrivateData,
       Emit (Done \<lparr>numberOfTasksRequested = 1, numberOfTasksNeeded = 1, numberOfTasksRun = 1\<rparr>)]
   \<and> run (init one_async_callback_task) [Timer, Timer, Proc 0 (Exit (Some 0))] = None"
  by (simp add: one_async_callback_task_eq run_defs lookup_defs)

end
